theory Spec2Isabelle
  imports Main "HOL-Library.AList" "HOL-Library.Multiset"
begin

section \<open>JavaScript values, objects and the object store\<close>

text \<open>
  Values are the JSON-like trees that selectors, options and catalog documents are made
  of. An object is an association list in property order; a property is read through
  \<open>map_of\<close> (the first binding of a key is the property) and written with
  \<open>AList.update\<close> (an existing key keeps its place, a new key goes last), as
  assignment \<^verbatim>\<open>obj[key] = v\<close> does.
\<close>

datatype jsval =
    JUndefined
  | JNull
  | JBool bool
  | JNum int
  | JStr string
  | JArr "jsval list"
  | JObj "(string \<times> jsval) list"

type_synonym obj = "(string \<times> jsval) list"

definition obj_keys :: "obj \<Rightarrow> string list" where
  "obj_keys ob = map fst ob"

text \<open>
  Underscore's \<^verbatim>\<open>_.extend(destination, *sources)\<close>: for every source in turn and every
  key of it, \<^verbatim>\<open>destination[key] = source[key]\<close>. A source that is \<^verbatim>\<open>null\<close> or
  \<^verbatim>\<open>undefined\<close> (here \<open>None\<close>) has no keys and is passed over.
\<close>

definition assign_all :: "obj \<Rightarrow> obj \<Rightarrow> obj" where
  "assign_all dst src =
     fold (\<lambda>k d. case map_of src k of Some v \<Rightarrow> AList.update k v d | None \<Rightarrow> d)
          (obj_keys src) dst"

definition us_extend :: "obj \<Rightarrow> obj option list \<Rightarrow> obj" where
  "us_extend dst srcs =
     fold (\<lambda>s d. case s of None \<Rightarrow> d | Some src \<Rightarrow> assign_all d src) srcs dst"

text \<open>
  The selector and options arguments are references to mutable objects, and
  \<open>findIn\<close> writes through one of them. The store is a list of objects; a reference is
  an index into it, and a new object takes the next free index. Property values are
  immutable trees: nothing in the module writes below the top level of an object.
\<close>

type_synonym ref = nat
type_synonym heap = "obj list"

definition deref :: "heap \<Rightarrow> ref \<Rightarrow> obj" where
  "deref h r = h ! r"

definition new_object :: "heap \<Rightarrow> ref \<times> heap" where
  "new_object h = (length h, h @ [[]])"

definition extend_at :: "ref \<Rightarrow> obj option list \<Rightarrow> heap \<Rightarrow> heap" where
  "extend_at r srcs h = h[r := us_extend (deref h r) srcs]"

text \<open>\<^verbatim>\<open>x || {}\<close> on an optional object argument: a fresh empty object when it is absent.\<close>

definition or_empty :: "ref option \<Rightarrow> heap \<Rightarrow> ref \<times> heap" where
  "or_empty x h = (case x of Some r \<Rightarrow> (r, h) | None \<Rightarrow> new_object h)"

text \<open>\<^verbatim>\<open>a || b\<close> on optional strings: the empty string is falsy, as \<^verbatim>\<open>undefined\<close> is.\<close>

definition js_or :: "string option \<Rightarrow> string option \<Rightarrow> string option" where
  "js_or a b = (case a of None \<Rightarrow> b | Some s \<Rightarrow> if s = [] then b else a)"

text \<open>\<^verbatim>\<open>Array.prototype.concat\<close>: an array argument is spliced in, any other value is
  appended as one element.\<close>

definition concat_js :: "jsval list \<Rightarrow> jsval \<Rightarrow> jsval list" where
  "concat_js xs v = (case v of JArr ys \<Rightarrow> xs @ ys | _ \<Rightarrow> xs @ [v])"

section \<open>The collaborators: catalog, categories, users, ambient state\<close>

text \<open>
  An application is its stored document together with the timestamp of
  \<^verbatim>\<open>latestVersion().dateTime\<close>, a helper of the catalog that this module only calls.
  A user carries \<^verbatim>\<open>installedApps\<close>, from application id to the timestamp
  \<^verbatim>\<open>version.dateTime\<close> of the installed version, in property order.
\<close>

record app =
  app_doc :: obj
  latestVersion_dateTime :: int

record user =
  user_id :: string
  installedApps :: "(string \<times> int) list"

record category =
  cat_name :: string
  cat_doc :: obj

text \<open>The invocation context \<^verbatim>\<open>this\<close> of a genre function or of the upload directive.\<close>

record this_context =
  userId :: "string option"
  authorId :: "string option"

record env =
  Categories :: "category list"
  Apps :: "app list"
  Meteor_users :: "user list"
  Meteor_isClient :: bool
  has_window :: bool
  Meteor_userId :: "string option"
  amplify_store :: jsval
  FlowRouter_getParam :: "(string \<Rightarrow> jsval) option"

text \<open>
  \<^verbatim>\<open>fn.apply(context)\<close> with no context runs the function with the global object as
  \<^verbatim>\<open>this\<close>, on which neither \<^verbatim>\<open>userId\<close> nor \<^verbatim>\<open>authorId\<close> is set.
\<close>

definition this_of :: "this_context option \<Rightarrow> this_context" where
  "this_of c = (case c of Some t \<Rightarrow> t | None \<Rightarrow> \<lparr>userId = None, authorId = None\<rparr>)"

text \<open>
  Modelled from the spec: the user collection, the category registry and the catalog are
  collections of the document store, which is not part of the sources. \<^verbatim>\<open>findOne\<close>
  by id or by name returns the first document with that id or name, in the collection's
  order, or nothing; a falsy id (absent or empty) selects nothing.
\<close>

definition Meteor_users_findOne :: "user list \<Rightarrow> string option \<Rightarrow> user option" where
  "Meteor_users_findOne us uid =
     (case uid of None \<Rightarrow> None
      | Some u \<Rightarrow> if u = [] then None else find (\<lambda>x. user_id x = u) us)"

definition Apps_findOne_id :: "app list \<Rightarrow> string \<Rightarrow> app option" where
  "Apps_findOne_id catalog appId =
     (if appId = [] then None
      else find (\<lambda>a. map_of (app_doc a) ''_id'' = Some (JStr appId)) catalog)"

definition Categories_findOne :: "category list \<Rightarrow> string \<Rightarrow> category option" where
  "Categories_findOne cs nm = find (\<lambda>c. cat_name c = nm) cs"

text \<open>
  Modelled from the spec: the catalog's \<^verbatim>\<open>find\<close> and \<^verbatim>\<open>findOne\<close> by filter, for
  the selectors this module builds. A \<^verbatim>\<open>null\<close> selector matches no document; an
  object selector matches the documents that satisfy every one of its fields, where a
  field holding \<^verbatim>\<open>{$in: [...]}\<close> asks for membership and any other value for equality
  (or containment, when the document's field is an array, as \<^verbatim>\<open>categories\<close> is).
  Sorting, skipping, limiting and projecting act on the matched documents and are left
  to the store: \<open>fetch\<close> lists the matched documents in the catalog's order, and
  \<open>Apps_findOne\<close> returns the first of them.
\<close>

fun in_operand :: "jsval \<Rightarrow> jsval list option" where
  "in_operand (JObj [(oper, JArr vs)]) = (if oper = ''$in'' then Some vs else None)"
| "in_operand _ = None"

definition field_holds :: "jsval \<Rightarrow> jsval \<Rightarrow> bool" where
  "field_holds v c =
     (case in_operand c of
        Some vs \<Rightarrow>
          (v \<in> set vs \<or> (case v of JArr es \<Rightarrow> list_ex (\<lambda>x. x \<in> set vs) es | _ \<Rightarrow> False))
      | None \<Rightarrow> (v = c \<or> (case v of JArr es \<Rightarrow> c \<in> set es | _ \<Rightarrow> False)))"

definition doc_field :: "obj \<Rightarrow> string \<Rightarrow> jsval" where
  "doc_field d k = (case map_of d k of Some v \<Rightarrow> v | None \<Rightarrow> JUndefined)"

definition matches :: "obj \<Rightarrow> obj \<Rightarrow> bool" where
  "matches d sel =
     list_all (\<lambda>k. case map_of sel k of Some c \<Rightarrow> field_holds (doc_field d k) c | None \<Rightarrow> True)
              (obj_keys sel)"

text \<open>
  A call \<^verbatim>\<open>Apps.find(selector, options)\<close> is recorded as the cursor it returns: the
  references it was given (\<open>None\<close> for \<^verbatim>\<open>null\<close> or an absent argument). \<open>fetch\<close> reads
  the cursor against the catalog, in the store as it is when the cursor is made.
\<close>

record cursor =
  cur_selector :: "ref option"
  cur_options :: "ref option"

definition Apps_find :: "ref option \<Rightarrow> ref option \<Rightarrow> cursor" where
  "Apps_find sel opts = \<lparr>cur_selector = sel, cur_options = opts\<rparr>"

definition fetch :: "app list \<Rightarrow> heap \<Rightarrow> cursor \<Rightarrow> app list" where
  "fetch catalog h c =
     (case cur_selector c of
        None \<Rightarrow> []
      | Some r \<Rightarrow> filter (\<lambda>a. matches (app_doc a) (deref h r)) catalog)"

definition Apps_findOne :: "app list \<Rightarrow> heap \<Rightarrow> ref option \<Rightarrow> ref option \<Rightarrow> app option" where
  "Apps_findOne catalog h sel opts =
     (case fetch catalog h (Apps_find sel opts) of [] \<Rightarrow> None | a # _ \<Rightarrow> Some a)"

section \<open>The extra genres\<close>

text \<open>
  A selector or options field of an extra genre is absent, a literal object, or a
  function of the context. The functions of the table are named by a tag and run by
  \<open>apply_selector\<close>; a function returns \<open>None\<close> for \<^verbatim>\<open>null\<close>.
\<close>

datatype genre_function =
    Installed_selector
  | UpdatesAvailable_selector
  | NoUpdates_selector
  | AppsByMe_selector
  | AppsByAuthor_selector

datatype genre_field = Absent | Static obj | Computed genre_function

record extra_genre =
  g_name :: string
  g_selector :: genre_field
  g_options :: genre_field
  g_priority :: int
  g_showSummary :: bool

definition getUser :: "env \<Rightarrow> this_context \<Rightarrow> string option \<Rightarrow> user option" where
  "getUser e this uid =
     (let uid1 = js_or uid (userId this);
          uid2 = (if Meteor_isClient e then js_or uid1 (Meteor_userId e) else uid1)
      in Meteor_users_findOne (Meteor_users e) uid2)"

text \<open>The two reducers over \<^verbatim>\<open>user.installedApps\<close>, one step of \<^verbatim>\<open>_.reduce\<close> each.\<close>

definition updatesAvailable_step :: "app list \<Rightarrow> string \<times> int \<Rightarrow> string list \<Rightarrow> string list" where
  "updatesAvailable_step catalog kv idList =
     (case Apps_findOne_id catalog (fst kv) of
        Some current \<Rightarrow>
          if snd kv < latestVersion_dateTime current then idList @ [fst kv] else idList
      | None \<Rightarrow> idList)"

definition noUpdates_step :: "app list \<Rightarrow> string \<times> int \<Rightarrow> string list \<Rightarrow> string list" where
  "noUpdates_step catalog kv idList =
     (case Apps_findOne_id catalog (fst kv) of
        Some current \<Rightarrow>
          if snd kv \<ge> latestVersion_dateTime current then idList @ [fst kv] else idList
      | None \<Rightarrow> idList)"

fun apply_selector :: "genre_function \<Rightarrow> env \<Rightarrow> this_context \<Rightarrow> string option \<Rightarrow> obj option" where
  "apply_selector Installed_selector e this uid =
     (let usr = getUser e this uid;
          all0 = [];
          all1 = (if has_window e then concat_js all0 (amplify_store e) else all0);
          all2 = (case usr of
                    Some u \<Rightarrow> concat_js all1 (JArr (map JStr (map fst (installedApps u))))
                  | None \<Rightarrow> all1)
      in Some [(''_id'', JObj [(''$in'', JArr all2)])])"
| "apply_selector UpdatesAvailable_selector e this uid =
     (case getUser e this uid of
        None \<Rightarrow> None
      | Some u \<Rightarrow>
          Some [(''_id'',
                 JObj [(''$in'',
                        JArr (map JStr (fold (updatesAvailable_step (Apps e))
                                             (installedApps u) [])))])])"
| "apply_selector NoUpdates_selector e this uid =
     (case getUser e this uid of
        None \<Rightarrow> None
      | Some u \<Rightarrow>
          Some [(''_id'',
                 JObj [(''$in'',
                        JArr (map JStr (fold (noUpdates_step (Apps e))
                                             (installedApps u) [])))])])"
| "apply_selector AppsByMe_selector e this uid =
     (case getUser e this uid of
        None \<Rightarrow> None
      | Some u \<Rightarrow> Some [(''author'', JStr (user_id u))])"
| "apply_selector AppsByAuthor_selector e this uid =
     Some [(''author'',
            (case js_or (authorId this) None of
               Some a \<Rightarrow> JStr a
             | None \<Rightarrow> (case FlowRouter_getParam e of
                          None \<Rightarrow> JUndefined
                        | Some getParam \<Rightarrow> getParam ''authorId'')))]"

definition extraGenres :: "extra_genre list" where
  "extraGenres =
    [ \<lparr>g_name = ''All'', g_selector = Static [], g_options = Static [],
       g_priority = 1, g_showSummary = False\<rparr>,
      \<lparr>g_name = ''Popular'', g_selector = Static [],
       g_options = Static [(''sort'', JObj [(''installCount'', JNum (- 1))])],
       g_priority = 0, g_showSummary = True\<rparr>,
      \<lparr>g_name = ''New'', g_selector = Static [],
       g_options = Static [(''sort'', JObj [(''createdAt'', JNum (- 1))])],
       g_priority = 1, g_showSummary = False\<rparr>,
      \<lparr>g_name = ''New & Updated'', g_selector = Static [],
       g_options = Static [(''sort'', JObj [(''lastUpdated'', JNum (- 1))])],
       g_priority = 0, g_showSummary = True\<rparr>,
      \<lparr>g_name = ''This Week'', g_selector = Static [],
       g_options = Static [(''sort'', JObj [(''installCountThisWeek'', JNum (- 1))])],
       g_priority = 0, g_showSummary = False\<rparr>,
      \<lparr>g_name = ''Installed'', g_selector = Computed Installed_selector,
       g_options = Static [],
       g_priority = 2, g_showSummary = False\<rparr>,
      \<lparr>g_name = ''Updates Available'', g_selector = Computed UpdatesAvailable_selector,
       g_options = Absent,
       g_priority = 0, g_showSummary = False\<rparr>,
      \<lparr>g_name = ''No Updates'', g_selector = Computed NoUpdates_selector,
       g_options = Absent,
       g_priority = 0, g_showSummary = False\<rparr>,
      \<lparr>g_name = ''Apps By Me'', g_selector = Computed AppsByMe_selector,
       g_options = Absent,
       g_priority = 0, g_showSummary = False\<rparr>,
      \<lparr>g_name = ''Apps By Author'', g_selector = Computed AppsByAuthor_selector,
       g_options = Absent,
       g_priority = 0, g_showSummary = False\<rparr> ]"

definition findWhere_name :: "extra_genre list \<Rightarrow> string \<Rightarrow> extra_genre option" where
  "findWhere_name gs nm = find (\<lambda>g. g_name g = nm) gs"

section \<open>The resolver\<close>

text \<open>
  \<open>resolve_field\<close> is the pair of lines
  \<^verbatim>\<open>if (_.isFunction(x)) x = x.apply(context)\<close>: a function is called with the context
  as \<^verbatim>\<open>this\<close> and no argument; an absent field stays \<^verbatim>\<open>undefined\<close>.
\<close>

definition resolve_field :: "env \<Rightarrow> genre_field \<Rightarrow> this_context option \<Rightarrow> obj option" where
  "resolve_field e f c =
     (case f of
        Absent \<Rightarrow> None
      | Static ob \<Rightarrow> Some ob
      | Computed fn \<Rightarrow> apply_selector fn e (this_of c) None)"

record params =
  p_selector :: ref
  p_options :: ref

definition invokeGenreFunctions ::
  "env \<Rightarrow> extra_genre \<Rightarrow> ref \<Rightarrow> ref \<Rightarrow> this_context option \<Rightarrow> heap \<Rightarrow> params \<times> heap" where
  "invokeGenreFunctions e extraGenre origSelector origOptions c h =
     (let eGenSelector = resolve_field e (g_selector extraGenre) c;
          eGenOptions = resolve_field e (g_options extraGenre) c;
          (s, h1) = new_object h;
          h2 = extend_at s [Some (deref h1 origSelector), eGenSelector] h1;
          (opt, h3) = new_object h2;
          h4 = extend_at opt [Some (deref h3 origOptions), eGenOptions] h3
      in (\<lparr>p_selector = s, p_options = opt\<rparr>, h4))"

definition findIn ::
  "env \<Rightarrow> string \<Rightarrow> ref option \<Rightarrow> ref option \<Rightarrow> this_context option \<Rightarrow> heap \<Rightarrow> cursor \<times> heap" where
  "findIn e nm sel opts c h =
     (let (thisSelector, h1) = or_empty sel h;
          (theseOptions, h2) = or_empty opts h1
      in case Categories_findOne (Categories e) nm of
           Some cat \<Rightarrow>
             (let h3 = extend_at thisSelector [Some [(''categories'', JStr (cat_name cat))]] h2
              in (Apps_find (Some thisSelector) opts, h3))
         | None \<Rightarrow>
             (case findWhere_name extraGenres nm of
                Some extraGenre \<Rightarrow>
                  (let (ps, h3) = invokeGenreFunctions e extraGenre thisSelector theseOptions c h2
                   in (Apps_find (Some (p_selector ps)) (Some (p_options ps)), h3))
              | None \<Rightarrow> (Apps_find None None, h2)))"

definition findOneIn ::
  "env \<Rightarrow> string \<Rightarrow> ref option \<Rightarrow> ref option \<Rightarrow> this_context option \<Rightarrow> heap \<Rightarrow> app option \<times> heap" where
  "findOneIn e nm sel opts c h =
     (let (thisSelector, h1) = or_empty sel h;
          (theseOptions, h2) = or_empty opts h1
      in case Categories_findOne (Categories e) nm of
           Some cat \<Rightarrow>
             (let h3 = extend_at thisSelector [Some [(''categories'', JStr (cat_name cat))]] h2
              in (Apps_findOne (Apps e) h3 (Some thisSelector) (Some theseOptions), h3))
         | None \<Rightarrow>
             (case findWhere_name extraGenres nm of
                Some extraGenre \<Rightarrow>
                  (let (ps, h3) = invokeGenreFunctions e extraGenre thisSelector theseOptions c h2
                   in (Apps_findOne (Apps e) h3 (Some (p_selector ps)) (Some (p_options ps)), h3))
              | None \<Rightarrow> (None, h2)))"

section \<open>Listing genres\<close>

text \<open>
  \<open>getAll\<close> returns descriptors of both kinds in one list: the extra genres of the table
  and the category documents of the registry.
\<close>

datatype genre = ExtraGenre extra_genre | Category category

fun genre_name :: "genre \<Rightarrow> string" where
  "genre_name (ExtraGenre g) = g_name g"
| "genre_name (Category c) = cat_name c"

text \<open>
  Underscore's \<^verbatim>\<open>_.sortBy(list, iteratee)\<close> pairs every element with its criterion and
  its index and sorts the pairs with the comparator
  \<^verbatim>\<open>if (a !== b) { if (a > b || a === void 0) return 1; if (a < b || b === void 0) return -1; } return left.index - right.index\<close>.
  A criterion is a value of a linearly ordered type or \<^verbatim>\<open>undefined\<close> (\<open>None\<close>).
  \<open>crit_after a b\<close> says that the comparator puts criterion \<open>a\<close> after \<open>b\<close> whatever
  the indices. Equal criteria fall back on the index, so the sorted list is the one an
  insertion sort makes that never moves an element past an equal one.
\<close>

definition crit_after :: "('k::linorder) option \<Rightarrow> 'k option \<Rightarrow> bool" where
  "crit_after a b =
     (a \<noteq> b \<and>
      (case a of
         None \<Rightarrow> True
       | Some x \<Rightarrow> (case b of None \<Rightarrow> False | Some y \<Rightarrow> x > y)))"

fun insert_by :: "('a \<Rightarrow> ('k::linorder) option) \<Rightarrow> 'a \<Rightarrow> 'a list \<Rightarrow> 'a list" where
  "insert_by f x [] = [x]"
| "insert_by f x (y # ys) =
     (if crit_after (f x) (f y) then y # insert_by f x ys else x # y # ys)"

definition sortBy :: "('a \<Rightarrow> ('k::linorder) option) \<Rightarrow> 'a list \<Rightarrow> 'a list" where
  "sortBy f xs = foldr (insert_by f) xs []"

text \<open>
  The options of \<open>getAll\<close>: \<^verbatim>\<open>where\<close> (an object of attributes), \<^verbatim>\<open>filter\<close>
  (a predicate) and \<^verbatim>\<open>iteratee\<close> (a criterion function), each possibly absent.
  \<^verbatim>\<open>_.where\<close> belongs to the Underscore library and is a parameter of the model.
\<close>

record 'k getAll_options =
  opt_where :: "obj option"
  opt_filter :: "(genre \<Rightarrow> bool) option"
  opt_iteratee :: "(genre \<Rightarrow> 'k option) option"

definition no_options :: "'k getAll_options" where
  "no_options = \<lparr>opt_where = None, opt_filter = None, opt_iteratee = None\<rparr>"

definition getAll ::
  "(genre list \<Rightarrow> obj \<Rightarrow> genre list) \<Rightarrow> env \<Rightarrow> ('k::linorder) getAll_options option
   \<Rightarrow> genre list" where
  "getAll us_where e options =
     (let opts = (case options of None \<Rightarrow> no_options | Some given \<Rightarrow> given);
          genres0 = map ExtraGenre extraGenres @ map Category (Categories e);
          genres1 = (case opt_where opts of
                       Some attrs \<Rightarrow> us_where genres0 attrs
                     | None \<Rightarrow> genres0);
          genres2 = (case opt_filter opts of
                       Some p \<Rightarrow> filter p genres1
                     | None \<Rightarrow> genres1)
      in case opt_iteratee opts of
           Some f \<Rightarrow> sortBy f genres2
         | None \<Rightarrow> genres2)"

definition getOne :: "env \<Rightarrow> string \<Rightarrow> genre option" where
  "getOne e nm =
     (case Categories_findOne (Categories e) nm of
        Some cat \<Rightarrow> Some (Category cat)
      | None \<Rightarrow> map_option ExtraGenre (findWhere_name extraGenres nm))"

section \<open>The image upload directive\<close>

datatype meteor_error = Meteor_Error string string

record upload_file =
  file_name :: string

definition authorize :: "this_context \<Rightarrow> meteor_error + bool" where
  "authorize this =
     (case js_or (userId this) None of
        None \<Rightarrow> Inl (Meteor_Error ''Login Required'' ''Please login before posting files'')
      | Some u \<Rightarrow> Inr True)"

text \<open>
  String concatenation turns its operands into strings: an absent user id reads
  \<^verbatim>\<open>null\<close>, and the number \<^verbatim>\<open>new Date().valueOf()\<close>, a whole number of milliseconds,
  is written in decimal digits.
\<close>

fun digits :: "nat \<Rightarrow> string" where
  "digits n =
     (if n < 10 then [''0123456789'' ! n]
      else digits (n div 10) @ [''0123456789'' ! (n mod 10)])"

declare digits.simps [simp del]

definition number_to_string :: "int \<Rightarrow> string" where
  "number_to_string i = (if i < 0 then ''-'' @ digits (nat (- i)) else digits (nat i))"

text \<open>Reading a digit string back as a number, to state that \<open>digits\<close> writes decimal
  notation.\<close>

definition digit_value :: "char \<Rightarrow> nat" where
  "digit_value ch = of_char ch - 48"

definition decimal_value :: "string \<Rightarrow> nat" where
  "decimal_value s = foldl (\<lambda>acc ch. 10 * acc + digit_value ch) 0 s"

definition id_to_string :: "string option \<Rightarrow> string" where
  "id_to_string u = (case u of None \<Rightarrow> ''null'' | Some s \<Rightarrow> s)"

definition key :: "this_context \<Rightarrow> int \<Rightarrow> upload_file \<Rightarrow> string" where
  "key this now file =
     ''images/'' @ id_to_string (userId this) @ ''_'' @ number_to_string now @ ''_''
       @ file_name file"

text \<open>
  Modelled from the spec: the upload service that runs the directive is not part of the
  sources. It requires the initiating identity to be authenticated, else rejects with
  the directive's error before the upload starts; only an authorized request is given
  a storage key.
\<close>

definition request_upload :: "this_context \<Rightarrow> int \<Rightarrow> upload_file \<Rightarrow> meteor_error + string" where
  "request_upload this now file =
     (case authorize this of
        Inl err \<Rightarrow> Inl err
      | Inr ok \<Rightarrow> Inr (key this now file))"

section \<open>Reading arguments and results\<close>

text \<open>
  Three readings used to state properties. An optional argument is well formed when it
  is absent or refers to an object of the store; it stands for that object, or for the
  empty object when absent; and a genre field that resolved to \<^verbatim>\<open>null\<close> or
  \<^verbatim>\<open>undefined\<close> contributes no key to a merge.
\<close>

definition valid_arg :: "heap \<Rightarrow> ref option \<Rightarrow> bool" where
  "valid_arg h x = (case x of Some r \<Rightarrow> r < length h | None \<Rightarrow> True)"

definition defaulted :: "heap \<Rightarrow> ref option \<Rightarrow> obj" where
  "defaulted h x = (case x of Some r \<Rightarrow> deref h r | None \<Rightarrow> [])"

definition resolved :: "obj option \<Rightarrow> obj" where
  "resolved x = (case x of Some ob \<Rightarrow> ob | None \<Rightarrow> [])"

section \<open>Example data\<close>

text \<open>
  A small server-side installation used to instantiate the theorems: two applications,
  one category, and one user who has installed both applications, the first of them in
  an older version than the catalog's latest.
\<close>

definition ex_app1 :: app where
  "ex_app1 = \<lparr>app_doc = [(''_id'', JStr ''a1''), (''author'', JStr ''u9'')],
              latestVersion_dateTime = 5\<rparr>"

definition ex_app2 :: app where
  "ex_app2 = \<lparr>app_doc = [(''_id'', JStr ''a2''), (''author'', JStr ''u1'')],
              latestVersion_dateTime = 7\<rparr>"

definition ex_user :: user where
  "ex_user = \<lparr>user_id = ''u1'', installedApps = [(''a1'', 3), (''a2'', 7)]\<rparr>"

definition ex_env :: env where
  "ex_env = \<lparr>Categories = [\<lparr>cat_name = ''Games'', cat_doc = []\<rparr>],
             Apps = [ex_app1, ex_app2],
             Meteor_users = [ex_user],
             Meteor_isClient = False,
             has_window = False,
             Meteor_userId = None,
             amplify_store = JUndefined,
             FlowRouter_getParam = None\<rparr>"

text \<open>The same installation seen from the browser of user \<^verbatim>\<open>u1\<close>, whose local store
  lists one more application.\<close>

definition ex_client_env :: env where
  "ex_client_env = ex_env\<lparr>Meteor_isClient := True, has_window := True,
                          Meteor_userId := Some ''u1'',
                          amplify_store := JArr [JStr ''a3'']\<rparr>"

definition ex_logged_in :: this_context where
  "ex_logged_in = \<lparr>userId = Some ''u1'', authorId = None\<rparr>"

text \<open>A criterion for sorting genres: the priority of an extra genre, and none for a
  category, which has no such field.\<close>

definition ex_priority :: "genre \<Rightarrow> int option" where
  "ex_priority x = (case x of ExtraGenre g \<Rightarrow> Some (g_priority g) | Category c \<Rightarrow> None)"

section \<open>Objects and the store: basic facts\<close>

lemma fold_assign_lookup:
  "map_of (fold (\<lambda>k d. case map_of src k of Some v \<Rightarrow> AList.update k v d | None \<Rightarrow> d) ks dst) k =
     (if k \<in> set ks then (case map_of src k of Some v \<Rightarrow> Some v | None \<Rightarrow> map_of dst k)
      else map_of dst k)"
  by (induction ks arbitrary: dst) (auto simp: update_conv' split: option.splits)

lemma map_of_assign_all: "map_of (assign_all dst src) = map_of dst ++ map_of src"
proof
  fix k
  show "map_of (assign_all dst src) k = (map_of dst ++ map_of src) k"
  proof (cases "map_of src k")
    case None
    then show ?thesis
      by (simp add: assign_all_def obj_keys_def fold_assign_lookup map_add_def)
  next
    case (Some v)
    then have "k \<in> set (map fst src)"
      by (metis map_of_eq_None_iff option.distinct(1) set_map)
    with Some show ?thesis
      by (simp add: assign_all_def obj_keys_def fold_assign_lookup map_add_def)
  qed
qed

lemma extend_two:
  "us_extend dst [Some a, b] =
     (case b of None \<Rightarrow> assign_all dst a | Some src \<Rightarrow> assign_all (assign_all dst a) src)"
  by (simp add: us_extend_def split: option.splits)

lemma extend_one_field: "us_extend ob [Some [(k, v)]] = AList.update k v ob"
  by (simp add: us_extend_def assign_all_def obj_keys_def)

lemma deref_extend_at_same:
  "r < length h \<Longrightarrow> deref (extend_at r srcs h) r = us_extend (deref h r) srcs"
  by (simp add: deref_def extend_at_def)

lemma deref_extend_at_other: "r' \<noteq> r \<Longrightarrow> deref (extend_at r srcs h) r' = deref h r'"
  by (simp add: deref_def extend_at_def)

lemma or_empty_cases:
  "or_empty x h = (case x of Some r \<Rightarrow> (r, h) | None \<Rightarrow> (length h, h @ [[]]))"
  by (simp add: or_empty_def new_object_def split: option.splits)

lemma Categories_findOne_None:
  "Categories_findOne cs nm = None \<longleftrightarrow> nm \<notin> cat_name ` set cs"
  by (auto simp: Categories_findOne_def find_None_iff)

lemma Categories_findOne_Some:
  "Categories_findOne cs nm = Some c \<Longrightarrow> c \<in> set cs \<and> cat_name c = nm"
  by (auto simp: Categories_findOne_def find_Some_iff)

lemma findWhere_name_None: "findWhere_name gs nm = None \<longleftrightarrow> nm \<notin> g_name ` set gs"
  by (auto simp: findWhere_name_def find_None_iff)

section \<open>The resolver, branch by branch\<close>

lemma invokeGenreFunctions_eq:
  assumes "s < length h" and "t < length h"
  shows "invokeGenreFunctions e g s t c h =
     (\<lparr>p_selector = length h, p_options = Suc (length h)\<rparr>,
      h @ [us_extend [] [Some (deref h s), resolve_field e (g_selector g) c],
           us_extend [] [Some (deref h t), resolve_field e (g_options g) c]])"
  using assms
  by (simp add: invokeGenreFunctions_def new_object_def extend_at_def deref_def Let_def
      nth_append list_update_append)

lemma Categories_findOne_member:
  assumes "cat \<in> set cs"
  shows "\<exists>c'. Categories_findOne cs (cat_name cat) = Some c' \<and> cat_name c' = cat_name cat"
proof (cases "Categories_findOne cs (cat_name cat)")
  case None
  with assms show ?thesis by (auto simp: Categories_findOne_None)
next
  case (Some c')
  then show ?thesis by (auto dest: Categories_findOne_Some)
qed

lemma find_distinct_key:
  "distinct (map f xs) \<Longrightarrow> x \<in> set xs \<Longrightarrow> find (\<lambda>y. f y = f x) xs = Some x"
  by (induction xs) (auto simp: image_iff)

lemma distinct_extraGenre_names: "distinct (map g_name extraGenres)"
  by (simp add: extraGenres_def)

lemma findWhere_name_member:
  "g \<in> set extraGenres \<Longrightarrow> findWhere_name extraGenres (g_name g) = Some g"
  unfolding findWhere_name_def
  by (rule find_distinct_key [OF distinct_extraGenre_names])

lemma or_empty_args:
  assumes "valid_arg h sel" and "valid_arg h opts"
    and "or_empty sel h = (s, h1)" and "or_empty opts h1 = (t, h2)"
  shows "s < length h2 \<and> t < length h2 \<and> length h \<le> length h2
       \<and> deref h2 s = defaulted h sel \<and> deref h2 t = defaulted h opts
       \<and> (\<forall>q < length h. deref h2 q = deref h q)"
  using assms
  by (auto simp: valid_arg_def defaulted_def or_empty_cases deref_def nth_append
      split: option.splits)

lemma findIn_category_branch:
  assumes "Categories_findOne (Categories e) nm = Some cat"
    and "or_empty sel h = (s, h1)" and "or_empty opts h1 = (t, h2)"
  shows "findIn e nm sel opts c h =
           (Apps_find (Some s) opts,
            extend_at s [Some [(''categories'', JStr (cat_name cat))]] h2)"
  using assms by (simp add: findIn_def Let_def)

lemma findOneIn_category_branch:
  assumes "Categories_findOne (Categories e) nm = Some cat"
    and "or_empty sel h = (s, h1)" and "or_empty opts h1 = (t, h2)"
  shows "findOneIn e nm sel opts c h =
           (Apps_findOne (Apps e)
              (extend_at s [Some [(''categories'', JStr (cat_name cat))]] h2) (Some s) (Some t),
            extend_at s [Some [(''categories'', JStr (cat_name cat))]] h2)"
  using assms by (simp add: findOneIn_def Let_def)

lemma findIn_extra_branch:
  assumes "Categories_findOne (Categories e) nm = None"
    and "findWhere_name extraGenres nm = Some g"
    and "or_empty sel h = (s, h1)" and "or_empty opts h1 = (t, h2)"
    and "s < length h2" and "t < length h2"
  shows "findIn e nm sel opts c h =
           (Apps_find (Some (length h2)) (Some (Suc (length h2))),
            h2 @ [us_extend [] [Some (deref h2 s), resolve_field e (g_selector g) c],
                  us_extend [] [Some (deref h2 t), resolve_field e (g_options g) c]])"
  using assms by (simp add: findIn_def invokeGenreFunctions_eq Let_def)

lemma findOneIn_extra_branch:
  assumes "Categories_findOne (Categories e) nm = None"
    and "findWhere_name extraGenres nm = Some g"
    and "or_empty sel h = (s, h1)" and "or_empty opts h1 = (t, h2)"
    and "s < length h2" and "t < length h2"
  shows "findOneIn e nm sel opts c h =
           (Apps_findOne (Apps e)
              (h2 @ [us_extend [] [Some (deref h2 s), resolve_field e (g_selector g) c],
                     us_extend [] [Some (deref h2 t), resolve_field e (g_options g) c]])
              (Some (length h2)) (Some (Suc (length h2))),
            h2 @ [us_extend [] [Some (deref h2 s), resolve_field e (g_selector g) c],
                  us_extend [] [Some (deref h2 t), resolve_field e (g_options g) c]])"
  using assms by (simp add: findOneIn_def invokeGenreFunctions_eq Let_def)

lemma map_of_extend_fresh:
  "map_of (us_extend [] [Some a, b]) = map_of a ++ map_of (resolved b)"
  by (cases b) (simp_all add: extend_two map_of_assign_all resolved_def)

lemma deref_append2:
  "deref (h @ [a, b]) (length h) = a" "deref (h @ [a, b]) (Suc (length h)) = b"
  "q < length h \<Longrightarrow> deref (h @ [a, b]) q = deref h q"
  by (simp_all add: deref_def nth_append)

lemma Popular_options:
  "g \<in> set extraGenres \<Longrightarrow> g_name g = ''Popular'' \<Longrightarrow>
     resolve_field e (g_options g) c = Some [(''sort'', JObj [(''installCount'', JNum (- 1))])]"
  by (auto simp: extraGenres_def resolve_field_def)

section \<open>Unknown names\<close>

text \<open>
  Claim C5. A name that is neither the name of a registered category nor the name of an
  extra genre makes \<open>findIn\<close> query the catalog with the \<^verbatim>\<open>null\<close> selector, whatever
  selector and options the caller gave; that cursor holds no document of any catalog;
  and \<open>findOneIn\<close> returns no document. Both functions are total: an unknown name is a
  result, not an error.
\<close>

theorem findIn_unknown_name:
  assumes "nm \<notin> cat_name ` set (Categories e)" and "nm \<notin> g_name ` set extraGenres"
  shows "cur_selector (fst (findIn e nm sel opts c h)) = None
       \<and> fetch catalog (snd (findIn e nm sel opts c h)) (fst (findIn e nm sel opts c h)) = []
       \<and> fst (findOneIn e nm sel opts c h) = None"
proof -
  have c: "Categories_findOne (Categories e) nm = None"
    using assms(1) by (simp add: Categories_findOne_None)
  have g: "findWhere_name extraGenres nm = None"
    using assms(2) by (simp add: findWhere_name_None)
  show ?thesis
    by (simp add: findIn_def findOneIn_def c g Apps_find_def fetch_def split: prod.splits)
qed

theorem findIn_unknown_name_witness:
  "''Board Games'' \<notin> cat_name ` set (Categories ex_env)
   \<and> ''Board Games'' \<notin> g_name ` set extraGenres
   \<and> cur_selector (fst (findIn ex_env ''Board Games'' (Some 0) None None [[(''approved'', JBool True)]])) = None
   \<and> fetch (Apps ex_env)
        (snd (findIn ex_env ''Board Games'' (Some 0) None None [[(''approved'', JBool True)]]))
        (fst (findIn ex_env ''Board Games'' (Some 0) None None [[(''approved'', JBool True)]])) = []
   \<and> fst (findOneIn ex_env ''Board Games'' (Some 0) None None [[(''approved'', JBool True)]]) = None"
proof -
  have a: "''Board Games'' \<notin> cat_name ` set (Categories ex_env)"
    by (simp add: ex_env_def)
  have b: "''Board Games'' \<notin> g_name ` set extraGenres"
    by (simp add: extraGenres_def)
  from findIn_unknown_name [OF a b] a b show ?thesis
    by blast
qed

section \<open>Categories\<close>

text \<open>
  Claim C2. For a registered category and a selector object supplied by the caller,
  \<open>findIn\<close> queries the catalog with the caller's selector object, whose
  \<^verbatim>\<open>categories\<close> field is by then set to the category's name (a value the caller put
  there is overwritten, every other field is as the caller gave it), and with exactly
  the options argument of the caller: the same reference, or none when the caller gave
  none. No other object of the store is written, so the options object is unchanged
  unless the caller passed one object as both selector and options.
\<close>

theorem findIn_category:
  assumes "cat \<in> set (Categories e)" and "r < length h"
    and "findIn e (cat_name cat) (Some r) opts c h = (cur, h')"
  shows "cur_selector cur = Some r
       \<and> cur_options cur = opts
       \<and> deref h' r = AList.update ''categories'' (JStr (cat_name cat)) (deref h r)
       \<and> map_of (deref h' r) = (map_of (deref h r))(''categories'' \<mapsto> JStr (cat_name cat))
       \<and> (r' < length h \<and> r' \<noteq> r \<longrightarrow> deref h' r' = deref h r')"
proof -
  obtain c' where c': "Categories_findOne (Categories e) (cat_name cat) = Some c'"
      "cat_name c' = cat_name cat"
    using Categories_findOne_member [OF assms(1)] by blast
  obtain t h2 where t: "or_empty opts h = (t, h2)"
    by (cases "or_empty opts h")
  have h2: "length h \<le> length h2" "\<forall>q < length h. deref h2 q = deref h q"
    using t by (auto simp: or_empty_cases deref_def nth_append split: option.splits)
  have res: "cur = Apps_find (Some r) opts"
      "h' = extend_at r [Some [(''categories'', JStr (cat_name cat))]] h2"
    using assms(3) by (simp_all add: findIn_def c' t or_empty_def [of "Some r"])
  have same: "deref h' r = AList.update ''categories'' (JStr (cat_name cat)) (deref h r)"
    using assms(2) h2 by (simp add: res deref_extend_at_same extend_one_field)
  have other: "r' < length h \<and> r' \<noteq> r \<longrightarrow> deref h' r' = deref h r'"
    using h2 by (simp add: res deref_extend_at_other)
  show ?thesis
    using same other by (simp add: res Apps_find_def update_conv')
qed

theorem findIn_category_witness:
  "\<lparr>cat_name = ''Games'', cat_doc = []\<rparr> \<in> set (Categories ex_env)
   \<and> findIn ex_env ''Games'' (Some 0) (Some 1) None
        [[(''categories'', JStr ''Tools''), (''approved'', JBool True)], [(''limit'', JNum 5)]]
      = (\<lparr>cur_selector = Some 0, cur_options = Some 1\<rparr>,
         [[(''categories'', JStr ''Games''), (''approved'', JBool True)], [(''limit'', JNum 5)]])
   \<and> deref [[(''categories'', JStr ''Games''), (''approved'', JBool True)], [(''limit'', JNum 5)]] 0
      = AList.update ''categories'' (JStr ''Games'')
          [(''categories'', JStr ''Tools''), (''approved'', JBool True)]
   \<and> deref [[(''categories'', JStr ''Games''), (''approved'', JBool True)], [(''limit'', JNum 5)]] 1
      = [(''limit'', JNum 5)]"
proof -
  let ?h = "[[(''categories'', JStr ''Tools''), (''approved'', JBool True)], [(''limit'', JNum 5)]]"
  let ?h' = "[[(''categories'', JStr ''Games''), (''approved'', JBool True)], [(''limit'', JNum 5)]]"
  have a: "\<lparr>cat_name = ''Games'', cat_doc = []\<rparr> \<in> set (Categories ex_env)"
    by (simp add: ex_env_def)
  have b: "(0::nat) < length ?h"
    by simp
  have c: "findIn ex_env (cat_name \<lparr>cat_name = ''Games'', cat_doc = []\<rparr>) (Some 0) (Some 1) None ?h
             = (\<lparr>cur_selector = Some 0, cur_options = Some 1\<rparr>, ?h')"
    by (simp add: findIn_def or_empty_def Categories_findOne_def ex_env_def extend_at_def
        us_extend_def assign_all_def obj_keys_def deref_def Apps_find_def)
  from findIn_category [OF a b c, of 1] a c show ?thesis
    by (simp add: deref_def)
qed

section \<open>The merge of the extra-genre branch\<close>

text \<open>
  Claim C4. For an extra genre (whose name no category bears) and any selector and
  options of the caller, each read as the empty object when absent, \<open>findIn\<close> queries
  the catalog with two objects made for the call. Key by key, the selector queried has
  the value of the genre's resolved selector where that has the key, and the caller's
  value otherwise (\<open>m ++ n\<close> is \<open>n\<close> where \<open>n\<close> is defined and \<open>m\<close> elsewhere); the same
  holds of the options. The value under a shared key is the genre's value as a whole:
  nothing of the caller's value under that key remains. So for \<^verbatim>\<open>Popular\<close> the
  \<^verbatim>\<open>sort\<close> queried is \<^verbatim>\<open>{installCount: -1}\<close> whatever the caller's options say.
  \<open>findOneIn\<close> performs the same merge and asks the catalog for one document with
  the same two objects.
\<close>

theorem extra_genre_merge:
  assumes "g \<in> set extraGenres" and "g_name g \<notin> cat_name ` set (Categories e)"
    and "valid_arg h sel" and "valid_arg h opts"
    and "findIn e (g_name g) sel opts c h = (cur, h')"
  shows "\<exists>s t. cur_selector cur = Some s \<and> cur_options cur = Some t
     \<and> map_of (deref h' s)
         = map_of (defaulted h sel) ++ map_of (resolved (resolve_field e (g_selector g) c))
     \<and> map_of (deref h' t)
         = map_of (defaulted h opts) ++ map_of (resolved (resolve_field e (g_options g) c))
     \<and> (g_name g = ''Popular'' \<longrightarrow>
          map_of (deref h' t) ''sort'' = Some (JObj [(''installCount'', JNum (- 1))]))
     \<and> findOneIn e (g_name g) sel opts c h = (Apps_findOne (Apps e) h' (Some s) (Some t), h')"
proof -
  have nc: "Categories_findOne (Categories e) (g_name g) = None"
    using assms(2) by (simp add: Categories_findOne_None)
  have fw: "findWhere_name extraGenres (g_name g) = Some g"
    using assms(1) by (rule findWhere_name_member)
  obtain s h1 where s: "or_empty sel h = (s, h1)"
    by (cases "or_empty sel h")
  obtain t h2 where t: "or_empty opts h1 = (t, h2)"
    by (cases "or_empty opts h1")
  note args = or_empty_args [OF assms(3) assms(4) s t]
  let ?ms = "us_extend [] [Some (deref h2 s), resolve_field e (g_selector g) c]"
  let ?mo = "us_extend [] [Some (deref h2 t), resolve_field e (g_options g) c]"
  have fi: "findIn e (g_name g) sel opts c h =
      (Apps_find (Some (length h2)) (Some (Suc (length h2))), h2 @ [?ms, ?mo])"
    using args by (intro findIn_extra_branch [OF nc fw s t]) simp_all
  have fo: "findOneIn e (g_name g) sel opts c h =
      (Apps_findOne (Apps e) (h2 @ [?ms, ?mo]) (Some (length h2)) (Some (Suc (length h2))),
       h2 @ [?ms, ?mo])"
    using args by (intro findOneIn_extra_branch [OF nc fw s t]) simp_all
  have cur: "cur = Apps_find (Some (length h2)) (Some (Suc (length h2)))"
    and h': "h' = h2 @ [?ms, ?mo]"
    using fi assms(5) by simp_all
  have ms: "map_of (deref h' (length h2))
      = map_of (defaulted h sel) ++ map_of (resolved (resolve_field e (g_selector g) c))"
    using args by (simp add: h' deref_append2 map_of_extend_fresh)
  have mo: "map_of (deref h' (Suc (length h2)))
      = map_of (defaulted h opts) ++ map_of (resolved (resolve_field e (g_options g) c))"
    using args by (simp add: h' deref_append2 map_of_extend_fresh)
  have pop: "g_name g = ''Popular'' \<longrightarrow>
      map_of (deref h' (Suc (length h2))) ''sort'' = Some (JObj [(''installCount'', JNum (- 1))])"
    using assms(1) by (auto simp: mo Popular_options resolved_def)
  show ?thesis
    using ms mo pop fo by (simp add: cur h' Apps_find_def)
qed

theorem extra_genre_merge_witness:
  "findIn ex_env ''Popular'' (Some 0) (Some 1) None [[], [(''sort'', JObj [(''foo'', JNum 1)])]]
     = (\<lparr>cur_selector = Some 2, cur_options = Some 3\<rparr>,
        [[], [(''sort'', JObj [(''foo'', JNum 1)])], [],
         [(''sort'', JObj [(''installCount'', JNum (- 1))])]])
   \<and> map_of (deref [[], [(''sort'', JObj [(''foo'', JNum 1)])], [],
                     [(''sort'', JObj [(''installCount'', JNum (- 1))])]] 3) ''sort''
       = Some (JObj [(''installCount'', JNum (- 1))])
   \<and> map_of (deref [[], [(''sort'', JObj [(''foo'', JNum 1)])], [],
                     [(''sort'', JObj [(''installCount'', JNum (- 1))])]] 2) = Map.empty"
proof -
  let ?g = "\<lparr>g_name = ''Popular'', g_selector = Static [],
             g_options = Static [(''sort'', JObj [(''installCount'', JNum (- 1))])],
             g_priority = 0, g_showSummary = True\<rparr>"
  let ?h = "[[], [(''sort'', JObj [(''foo'', JNum 1)])]]"
  let ?cur = "\<lparr>cur_selector = Some 2, cur_options = Some 3\<rparr>"
  let ?h' = "[[], [(''sort'', JObj [(''foo'', JNum 1)])], [],
              [(''sort'', JObj [(''installCount'', JNum (- 1))])]]"
  have a: "?g \<in> set extraGenres"
    by (simp add: extraGenres_def)
  have b: "g_name ?g \<notin> cat_name ` set (Categories ex_env)"
    by (simp add: ex_env_def)
  have c: "valid_arg ?h (Some 0)" and d: "valid_arg ?h (Some 1)"
    by (simp_all add: valid_arg_def)
  have f: "findIn ex_env (g_name ?g) (Some 0) (Some 1) None ?h = (?cur, ?h')"
    by (simp add: findIn_def or_empty_def new_object_def Categories_findOne_def ex_env_def
        findWhere_name_def extraGenres_def invokeGenreFunctions_def resolve_field_def
        extend_at_def us_extend_def assign_all_def obj_keys_def deref_def Apps_find_def)
  from extra_genre_merge [OF a b c d f] obtain s t where
    st: "cur_selector ?cur = Some s" "cur_options ?cur = Some t"
    and m: "map_of (deref ?h' s)
         = map_of (defaulted ?h (Some 0))
             ++ map_of (resolved (resolve_field ex_env (g_selector ?g) None))"
    and p: "g_name ?g = ''Popular'' \<longrightarrow>
          map_of (deref ?h' t) ''sort'' = Some (JObj [(''installCount'', JNum (- 1))])"
    by blast
  from st have "s = 2" "t = 3"
    by simp_all
  with m p f show ?thesis
    by (simp add: defaulted_def resolved_def resolve_field_def deref_def)
qed

section \<open>Who writes the caller's selector\<close>

text \<open>
  Claim C10. When the name is that of a registered category, \<open>findIn\<close> and
  \<open>findOneIn\<close> write through the caller's selector reference: after the call that
  object has \<^verbatim>\<open>categories\<close> set, or overwritten, to the category's name. When the name
  resolves to an extra genre, the merge goes into objects made for it and the caller's
  selector object is after the call what it was before.
\<close>

theorem category_branch_mutates_selector:
  assumes "r < length h" and "valid_arg h opts"
  shows "(cat \<in> set (Categories e) \<longrightarrow>
            deref (snd (findIn e (cat_name cat) (Some r) opts c h)) r
              = AList.update ''categories'' (JStr (cat_name cat)) (deref h r)
          \<and> deref (snd (findOneIn e (cat_name cat) (Some r) opts c h)) r
              = AList.update ''categories'' (JStr (cat_name cat)) (deref h r))
       \<and> (g \<in> set extraGenres \<and> g_name g \<notin> cat_name ` set (Categories e) \<longrightarrow>
            deref (snd (findIn e (g_name g) (Some r) opts c h)) r = deref h r
          \<and> deref (snd (findOneIn e (g_name g) (Some r) opts c h)) r = deref h r)"
proof -
  have s: "or_empty (Some r) h = (r, h)"
    by (simp add: or_empty_def)
  obtain t h2 where t: "or_empty opts h = (t, h2)"
    by (cases "or_empty opts h")
  have v: "valid_arg h (Some r)"
    using assms(1) by (simp add: valid_arg_def)
  note args = or_empty_args [OF v assms(2) s t]
  have cat_part: "deref (snd (findIn e (cat_name cat) (Some r) opts c h)) r
              = AList.update ''categories'' (JStr (cat_name cat)) (deref h r)
          \<and> deref (snd (findOneIn e (cat_name cat) (Some r) opts c h)) r
              = AList.update ''categories'' (JStr (cat_name cat)) (deref h r)"
    if mem: "cat \<in> set (Categories e)"
  proof -
    obtain c' where c': "Categories_findOne (Categories e) (cat_name cat) = Some c'"
      "cat_name c' = cat_name cat"
      using Categories_findOne_member [OF mem] by blast
    show ?thesis
      using args assms(1)
      by (simp add: findIn_category_branch [OF c'(1) s t] findOneIn_category_branch [OF c'(1) s t]
          c'(2) deref_extend_at_same extend_one_field defaulted_def)
  qed
  have extra_part: "deref (snd (findIn e (g_name g) (Some r) opts c h)) r = deref h r
          \<and> deref (snd (findOneIn e (g_name g) (Some r) opts c h)) r = deref h r"
    if gmem: "g \<in> set extraGenres" and fresh: "g_name g \<notin> cat_name ` set (Categories e)"
  proof -
    have nc: "Categories_findOne (Categories e) (g_name g) = None"
      using fresh by (simp add: Categories_findOne_None)
    have fw: "findWhere_name extraGenres (g_name g) = Some g"
      using gmem by (rule findWhere_name_member)
    have r2: "r < length h2" and t2: "t < length h2"
      using args by simp_all
    show ?thesis
      using args assms(1)
      by (simp add: findIn_extra_branch [OF nc fw s t r2 t2]
          findOneIn_extra_branch [OF nc fw s t r2 t2] deref_append2 defaulted_def)
  qed
  from cat_part extra_part show ?thesis
    by blast
qed

theorem category_branch_mutates_selector_witness:
  "\<lparr>cat_name = ''Games'', cat_doc = []\<rparr> \<in> set (Categories ex_env)
   \<and> deref (snd (findIn ex_env ''Games'' (Some 0) None None [[(''approved'', JBool True)]])) 0
       = [(''approved'', JBool True), (''categories'', JStr ''Games'')]
   \<and> deref (snd (findOneIn ex_env ''Games'' (Some 0) None None [[(''approved'', JBool True)]])) 0
       = [(''approved'', JBool True), (''categories'', JStr ''Games'')]
   \<and> deref (snd (findIn ex_env ''New'' (Some 0) None None [[(''approved'', JBool True)]])) 0
       = [(''approved'', JBool True)]
   \<and> deref (snd (findOneIn ex_env ''New'' (Some 0) None None [[(''approved'', JBool True)]])) 0
       = [(''approved'', JBool True)]"
proof -
  let ?cat = "\<lparr>cat_name = ''Games'', cat_doc = []\<rparr>"
  let ?g = "\<lparr>g_name = ''New'', g_selector = Static [],
             g_options = Static [(''sort'', JObj [(''createdAt'', JNum (- 1))])],
             g_priority = 1, g_showSummary = False\<rparr>"
  let ?h = "[[(''approved'', JBool True)]]"
  have a: "(0::nat) < length ?h"
    by simp
  have b: "valid_arg ?h None"
    by (simp add: valid_arg_def)
  have c: "?cat \<in> set (Categories ex_env)"
    by (simp add: ex_env_def)
  have d: "?g \<in> set extraGenres \<and> g_name ?g \<notin> cat_name ` set (Categories ex_env)"
    by (simp add: extraGenres_def ex_env_def)
  from category_branch_mutates_selector [OF a b, of ?cat ex_env None ?g] c d show ?thesis
    by (simp add: deref_def)
qed

section \<open>Genre functions that return null\<close>

text \<open>
  Claim C1. The claim asks that a genre whose selector function returns \<^verbatim>\<open>null\<close>
  (no user in the context) yields an empty result. Evaluated on the example
  installation with no context: the selector functions of \<^verbatim>\<open>Apps By Me\<close>,
  \<^verbatim>\<open>Updates Available\<close> and \<^verbatim>\<open>No Updates\<close> return \<^verbatim>\<open>null\<close>, the merge passes
  over the \<^verbatim>\<open>null\<close> source, and the catalog is queried with a copy of the caller's
  selector alone, here the empty selector: \<open>findIn\<close> yields the whole catalog and
  \<open>findOneIn\<close> yields a document.
\<close>

theorem null_selector_queries_caller_selector:
  "apply_selector AppsByMe_selector ex_env (this_of None) None = None
   \<and> apply_selector UpdatesAvailable_selector ex_env (this_of None) None = None
   \<and> apply_selector NoUpdates_selector ex_env (this_of None) None = None
   \<and> findIn ex_env ''Apps By Me'' None None None []
       = (\<lparr>cur_selector = Some 2, cur_options = Some 3\<rparr>, [[], [], [], []])
   \<and> findIn ex_env ''Updates Available'' None None None []
       = (\<lparr>cur_selector = Some 2, cur_options = Some 3\<rparr>, [[], [], [], []])
   \<and> findIn ex_env ''No Updates'' None None None []
       = (\<lparr>cur_selector = Some 2, cur_options = Some 3\<rparr>, [[], [], [], []])
   \<and> fetch (Apps ex_env) [[], [], [], []] \<lparr>cur_selector = Some 2, cur_options = Some 3\<rparr>
       = [ex_app1, ex_app2]
   \<and> fst (findOneIn ex_env ''Apps By Me'' None None None []) = Some ex_app1"
  by (simp add: findIn_def findOneIn_def or_empty_def new_object_def Categories_findOne_def
      ex_env_def findWhere_name_def extraGenres_def invokeGenreFunctions_def resolve_field_def
      extend_at_def us_extend_def assign_all_def obj_keys_def deref_def Apps_find_def
      this_of_def getUser_def js_or_def Meteor_users_findOne_def fetch_def matches_def
      Apps_findOne_def)

section \<open>Installed applications\<close>

lemma field_holds_empty_in: "\<not> field_holds v (JObj [(''$in'', JArr [])])"
  by (simp add: field_holds_def list_ex_iff split: jsval.splits)

lemma matches_empty_in:
  assumes "map_of sel ''_id'' = Some (JObj [(''$in'', JArr [])])"
  shows "\<not> matches d sel"
proof -
  have "''_id'' \<in> set (obj_keys sel)"
    using assms by (metis map_of_eq_None_iff obj_keys_def option.distinct(1) set_map)
  moreover have "\<not> (case map_of sel ''_id'' of
                   Some c \<Rightarrow> field_holds (doc_field d ''_id'') c | None \<Rightarrow> True)"
    by (simp add: assms field_holds_empty_in)
  ultimately show ?thesis
    unfolding matches_def list_all_iff by blast
qed

lemma findWhere_Installed:
  "findWhere_name extraGenres ''Installed''
     = Some \<lparr>g_name = ''Installed'', g_selector = Computed Installed_selector,
             g_options = Static [], g_priority = 2, g_showSummary = False\<rparr>"
  by (simp add: findWhere_name_def extraGenres_def)

lemma extend_fresh_single: "us_extend [] [Some [], Some [(k, v)]] = [(k, v)]"
  by (simp add: us_extend_def assign_all_def obj_keys_def)

lemma matches_single: "matches d [(k, c)] = field_holds (doc_field d k) c"
  by (simp add: matches_def obj_keys_def)

lemma field_holds_in_string:
  "field_holds (JStr i) (JObj [(''$in'', JArr ids)]) \<longleftrightarrow> JStr i \<in> set ids"
  by (simp add: field_holds_def)

lemma fetch_id_in:
  assumes "cur_selector cur = Some s"
    and "deref h s = [(''_id'', JObj [(''$in'', JArr ids)])]"
    and "map_of (app_doc x) ''_id'' = Some (JStr i)"
  shows "x \<in> set (fetch catalog h cur) \<longleftrightarrow> x \<in> set catalog \<and> JStr i \<in> set ids"
  using assms by (auto simp: fetch_def matches_single doc_field_def field_holds_in_string)

text \<open>
  Claim C6. \<open>findIn\<close> on \<^verbatim>\<open>Installed\<close> queries the catalog with a selector whose
  \<^verbatim>\<open>_id\<close> field is the membership filter \<^verbatim>\<open>{$in: ids}\<close>, the list \<open>ids\<close> being the
  one the genre's selector function computes; with no selector from the caller the
  queried selector is that filter alone, and an application with a string id is found
  exactly when it is in the catalog and its id is in \<open>ids\<close>. With no \<^verbatim>\<open>window\<close> and
  no resolved user \<open>ids\<close> is empty, and \<open>findIn\<close> then finds no document in any
  catalog, whatever the caller's selector. With a list of ids in the client's store and
  a resolved user, \<open>ids\<close> is the stored ids followed by the keys of the user's
  \<^verbatim>\<open>installedApps\<close>, so that it holds exactly the ids of either source; with only
  one of the two sources it is that source's ids.
\<close>

theorem Installed_genre:
  assumes "''Installed'' \<notin> cat_name ` set (Categories e)"
    and "valid_arg h sel" and "valid_arg h opts"
    and "findIn e ''Installed'' sel opts c h = (cur, h')"
  shows "\<exists>s ids.
         cur_selector cur = Some s
       \<and> map_of (deref h' s) ''_id'' = Some (JObj [(''$in'', JArr ids)])
       \<and> resolve_field e (Computed Installed_selector) c
           = Some [(''_id'', JObj [(''$in'', JArr ids)])]
       \<and> (sel = None \<longrightarrow> deref h' s = [(''_id'', JObj [(''$in'', JArr ids)])])
       \<and> (sel = None \<and> map_of (app_doc x) ''_id'' = Some (JStr i) \<longrightarrow>
            (x \<in> set (fetch catalog h' cur) \<longleftrightarrow> x \<in> set catalog \<and> JStr i \<in> set ids))
       \<and> (\<not> has_window e \<and> getUser e (this_of c) None = None \<longrightarrow>
            ids = [] \<and> fetch catalog h' cur = [])
       \<and> (has_window e \<and> amplify_store e = JArr stored
            \<and> getUser e (this_of c) None = Some u \<longrightarrow>
            ids = stored @ map JStr (map fst (installedApps u))
          \<and> set ids = set stored \<union> JStr ` fst ` set (installedApps u))
       \<and> (has_window e \<and> amplify_store e = JArr stored
            \<and> getUser e (this_of c) None = None \<longrightarrow> ids = stored)
       \<and> (\<not> has_window e \<and> getUser e (this_of c) None = Some u \<longrightarrow>
            ids = map JStr (map fst (installedApps u)))"
proof -
  let ?ids = "(if has_window e then concat_js [] (amplify_store e) else [])
              @ (case getUser e (this_of c) None of
                   Some u \<Rightarrow> map JStr (map fst (installedApps u))
                 | None \<Rightarrow> [])"
  let ?filter = "[(''_id'', JObj [(''$in'', JArr ?ids)])]"
  have nc: "Categories_findOne (Categories e) ''Installed'' = None"
    using assms(1) by (simp add: Categories_findOne_None)
  obtain s h1 where s: "or_empty sel h = (s, h1)"
    by (cases "or_empty sel h")
  obtain t h2 where t: "or_empty opts h1 = (t, h2)"
    by (cases "or_empty opts h1")
  note args = or_empty_args [OF assms(2) assms(3) s t]
  have s2: "s < length h2" and t2: "t < length h2"
    using args by simp_all
  note fi = findIn_extra_branch [OF nc findWhere_Installed s t s2 t2, of c]
  have shape: "resolve_field e (Computed Installed_selector) c = Some ?filter"
    by (simp add: resolve_field_def concat_js_def Let_def split: option.splits jsval.splits)
  have cur: "cur_selector cur = Some (length h2)"
    using fi assms(4) by (simp add: Apps_find_def)
  have merged: "deref h' (length h2) = us_extend [] [Some (defaulted h sel), Some ?filter]"
    using fi assms(4) args by (simp add: deref_append2 shape)
  have field: "map_of (deref h' (length h2)) ''_id'' = Some (JObj [(''$in'', JArr ?ids)])"
    unfolding merged by (simp add: map_of_extend_fresh resolved_def)
  have alone: "deref h' (length h2) = ?filter" if "sel = None"
    unfolding merged using that by (simp add: defaulted_def extend_fresh_single)
  have found: "x \<in> set (fetch catalog h' cur) \<longleftrightarrow> x \<in> set catalog \<and> JStr i \<in> set ?ids"
    if "sel = None" and "map_of (app_doc x) ''_id'' = Some (JStr i)"
    using cur alone [OF that(1)] that(2) by (rule fetch_id_in)
  have empty: "fetch catalog h' cur = []" if "?ids = []"
  proof -
    have "\<not> matches d (deref h' (length h2))" for d
      using field that by (intro matches_empty_in) simp
    then show ?thesis
      by (simp add: fetch_def cur)
  qed
  have server: "?ids = [] \<and> fetch catalog h' cur = []"
    if "\<not> has_window e \<and> getUser e (this_of c) None = None"
  proof -
    from that have "?ids = []"
      by simp
    with empty show ?thesis
      by blast
  qed
  have both: "?ids = stored @ map JStr (map fst (installedApps u))
          \<and> set ?ids = set stored \<union> JStr ` fst ` set (installedApps u)"
    if "has_window e \<and> amplify_store e = JArr stored \<and> getUser e (this_of c) None = Some u"
    using that by (simp add: concat_js_def image_image)
  have local: "?ids = stored"
    if "has_window e \<and> amplify_store e = JArr stored \<and> getUser e (this_of c) None = None"
    using that by (simp add: concat_js_def)
  have account: "?ids = map JStr (map fst (installedApps u))"
    if "\<not> has_window e \<and> getUser e (this_of c) None = Some u"
    using that by simp
  show ?thesis
    apply (rule exI [of _ "length h2"])
    apply (rule exI [of _ ?ids])
    using cur field shape alone found server both local account
    apply blast
    done
qed


theorem Installed_genre_witness:
  "''Installed'' \<notin> cat_name ` set (Categories ex_env)
   \<and> \<not> has_window ex_env \<and> getUser ex_env (this_of None) None = None
   \<and> findIn ex_env ''Installed'' None None None []
       = (\<lparr>cur_selector = Some 2, cur_options = Some 3\<rparr>,
          [[], [], [(''_id'', JObj [(''$in'', JArr [])])], []])
   \<and> fetch (Apps ex_env) [[], [], [(''_id'', JObj [(''$in'', JArr [])])], []]
        \<lparr>cur_selector = Some 2, cur_options = Some 3\<rparr> = []
   \<and> has_window ex_client_env \<and> amplify_store ex_client_env = JArr [JStr ''a3'']
   \<and> getUser ex_client_env (this_of None) None = Some ex_user
   \<and> findIn ex_client_env ''Installed'' None None None []
       = (\<lparr>cur_selector = Some 2, cur_options = Some 3\<rparr>,
          [[], [], [(''_id'', JObj [(''$in'', JArr [JStr ''a3'', JStr ''a1'', JStr ''a2''])])], []])
   \<and> resolve_field ex_client_env (Computed Installed_selector) None
       = Some [(''_id'', JObj [(''$in'', JArr [JStr ''a3'', JStr ''a1'', JStr ''a2''])])]
   \<and> ex_app1 \<in> set (fetch (Apps ex_client_env)
         [[], [], [(''_id'', JObj [(''$in'', JArr [JStr ''a3'', JStr ''a1'', JStr ''a2''])])], []]
         \<lparr>cur_selector = Some 2, cur_options = Some 3\<rparr>)"
proof -
  let ?cur = "\<lparr>cur_selector = Some 2, cur_options = Some 3\<rparr>"
  let ?h1 = "[[], [], [(''_id'', JObj [(''$in'', JArr [])])], []]"
  let ?h2 = "[[], [], [(''_id'', JObj [(''$in'', JArr [JStr ''a3'', JStr ''a1'', JStr ''a2''])])], []]"
  have a: "''Installed'' \<notin> cat_name ` set (Categories ex_env)"
    and a': "''Installed'' \<notin> cat_name ` set (Categories ex_client_env)"
    by (simp_all add: ex_env_def ex_client_env_def)
  have v: "valid_arg [] None"
    by (simp add: valid_arg_def)
  have f1: "findIn ex_env ''Installed'' None None None [] = (?cur, ?h1)"
    by (simp add: findIn_def or_empty_def new_object_def Categories_findOne_def ex_env_def
        findWhere_name_def extraGenres_def invokeGenreFunctions_def resolve_field_def
        extend_at_def us_extend_def assign_all_def obj_keys_def deref_def Apps_find_def
        this_of_def getUser_def js_or_def Meteor_users_findOne_def)
  have f2: "findIn ex_client_env ''Installed'' None None None [] = (?cur, ?h2)"
    by (simp add: findIn_def or_empty_def new_object_def Categories_findOne_def ex_env_def
        ex_client_env_def ex_user_def concat_js_def
        findWhere_name_def extraGenres_def invokeGenreFunctions_def resolve_field_def
        extend_at_def us_extend_def assign_all_def obj_keys_def deref_def Apps_find_def
        this_of_def getUser_def js_or_def Meteor_users_findOne_def)
  have server: "\<not> has_window ex_env \<and> getUser ex_env (this_of None) None = None"
    by (simp add: ex_env_def this_of_def getUser_def js_or_def Meteor_users_findOne_def)
  have client: "has_window ex_client_env \<and> amplify_store ex_client_env = JArr [JStr ''a3'']
      \<and> getUser ex_client_env (this_of None) None = Some ex_user"
    by (simp add: ex_client_env_def ex_env_def ex_user_def this_of_def getUser_def js_or_def
        Meteor_users_findOne_def)
  have id1: "map_of (app_doc ex_app1) ''_id'' = Some (JStr ''a1'')"
    and cat1: "ex_app1 \<in> set (Apps ex_client_env)"
    by (simp_all add: ex_app1_def ex_client_env_def ex_env_def)
  from Installed_genre [OF a v v f1, of ex_app1 "''a1''" "Apps ex_env" "[]" ex_user] server
  have r1: "fetch (Apps ex_env) ?h1 ?cur = []"
    by blast
  from Installed_genre [OF a' v v f2, of ex_app1 "''a1''" "Apps ex_client_env"
      "[JStr ''a3'']" ex_user]
  obtain s ids where
    sel: "resolve_field ex_client_env (Computed Installed_selector) None
           = Some [(''_id'', JObj [(''$in'', JArr ids)])]"
    and found: "None = (None :: ref option) \<and> map_of (app_doc ex_app1) ''_id'' = Some (JStr ''a1'')
        \<longrightarrow> (ex_app1 \<in> set (fetch (Apps ex_client_env) ?h2 ?cur)
              \<longleftrightarrow> ex_app1 \<in> set (Apps ex_client_env) \<and> JStr ''a1'' \<in> set ids)"
    and both: "has_window ex_client_env \<and> amplify_store ex_client_env = JArr [JStr ''a3'']
        \<and> getUser ex_client_env (this_of None) None = Some ex_user
        \<longrightarrow> ids = [JStr ''a3''] @ map JStr (map fst (installedApps ex_user))
          \<and> set ids = set [JStr ''a3''] \<union> JStr ` fst ` set (installedApps ex_user)"
    by (elim exE conjE) (rule that)
  from both client have ids: "ids = [JStr ''a3'', JStr ''a1'', JStr ''a2'']"
    by (simp add: ex_user_def)
  from found id1 cat1 ids have r2: "ex_app1 \<in> set (fetch (Apps ex_client_env) ?h2 ?cur)"
    by simp
  from a server f1 r1 client f2 sel ids r2 show ?thesis
    by simp
qed

section \<open>Updates available, no updates\<close>

lemma set_updatesAvailable_step:
  "set (updatesAvailable_step catalog (k, t) acc) =
     set acc \<union> {x. x = k \<and> (\<exists>cur. Apps_findOne_id catalog k = Some cur
                                \<and> t < latestVersion_dateTime cur)}"
  by (auto simp: updatesAvailable_step_def split: option.splits)

lemma set_noUpdates_step:
  "set (noUpdates_step catalog (k, t) acc) =
     set acc \<union> {x. x = k \<and> (\<exists>cur. Apps_findOne_id catalog k = Some cur
                                \<and> latestVersion_dateTime cur \<le> t)}"
  by (auto simp: noUpdates_step_def split: option.splits)

lemma set_fold_updatesAvailable:
  "set (fold (updatesAvailable_step catalog) xs acc) =
     set acc \<union> {k. \<exists>t cur. (k, t) \<in> set xs \<and> Apps_findOne_id catalog k = Some cur
                       \<and> t < latestVersion_dateTime cur}"
proof (induction xs arbitrary: acc)
  case Nil
  then show ?case by simp
next
  case (Cons kv xs)
  obtain k t where kv: "kv = (k, t)"
    by (cases kv)
  have "set (fold (updatesAvailable_step catalog) (kv # xs) acc) =
      set (updatesAvailable_step catalog (k, t) acc)
        \<union> {k. \<exists>t cur. (k, t) \<in> set xs \<and> Apps_findOne_id catalog k = Some cur
                       \<and> t < latestVersion_dateTime cur}"
    by (simp add: kv Cons.IH)
  then show ?case
    unfolding set_updatesAvailable_step kv by auto
qed

lemma set_fold_noUpdates:
  "set (fold (noUpdates_step catalog) xs acc) =
     set acc \<union> {k. \<exists>t cur. (k, t) \<in> set xs \<and> Apps_findOne_id catalog k = Some cur
                       \<and> latestVersion_dateTime cur \<le> t}"
proof (induction xs arbitrary: acc)
  case Nil
  then show ?case by simp
next
  case (Cons kv xs)
  obtain k t where kv: "kv = (k, t)"
    by (cases kv)
  have "set (fold (noUpdates_step catalog) (kv # xs) acc) =
      set (noUpdates_step catalog (k, t) acc)
        \<union> {k. \<exists>t cur. (k, t) \<in> set xs \<and> Apps_findOne_id catalog k = Some cur
                       \<and> latestVersion_dateTime cur \<le> t}"
    by (simp add: kv Cons.IH)
  then show ?case
    unfolding set_noUpdates_step kv by auto
qed

lemma findWhere_UpdatesAvailable:
  "findWhere_name extraGenres ''Updates Available''
     = Some \<lparr>g_name = ''Updates Available'', g_selector = Computed UpdatesAvailable_selector,
             g_options = Absent, g_priority = 0, g_showSummary = False\<rparr>"
  by (simp add: findWhere_name_def extraGenres_def)

lemma findWhere_NoUpdates:
  "findWhere_name extraGenres ''No Updates''
     = Some \<lparr>g_name = ''No Updates'', g_selector = Computed NoUpdates_selector,
             g_options = Absent, g_priority = 0, g_showSummary = False\<rparr>"
  by (simp add: findWhere_name_def extraGenres_def)

lemma Apps_findOne_id_Some:
  "Apps_findOne_id catalog a = Some ent \<Longrightarrow>
     ent \<in> set catalog \<and> map_of (app_doc ent) ''_id'' = Some (JStr a)"
  by (auto simp: Apps_findOne_id_def find_Some_iff split: if_splits)

lemma findIn_membership_filter:
  assumes nc: "nm \<notin> cat_name ` set (Categories e)"
    and fw: "findWhere_name extraGenres nm = Some g"
    and res: "resolve_field e (g_selector g) c = Some [(''_id'', JObj [(''$in'', JArr ids)])]"
    and vs: "valid_arg h sel" and vo: "valid_arg h opts"
    and fi: "findIn e nm sel opts c h = (cur, h')"
  shows "\<exists>s. cur_selector cur = Some s
       \<and> map_of (deref h' s) ''_id'' = Some (JObj [(''$in'', JArr ids)])
       \<and> (sel = None \<longrightarrow> deref h' s = [(''_id'', JObj [(''$in'', JArr ids)])])"
proof -
  have nc': "Categories_findOne (Categories e) nm = None"
    using nc by (simp add: Categories_findOne_None)
  obtain s h1 where s: "or_empty sel h = (s, h1)"
    by (cases "or_empty sel h")
  obtain t h2 where t: "or_empty opts h1 = (t, h2)"
    by (cases "or_empty opts h1")
  note args = or_empty_args [OF vs vo s t]
  have s2: "s < length h2" and t2: "t < length h2"
    using args by simp_all
  note br = findIn_extra_branch [OF nc' fw s t s2 t2, of c]
  have cur: "cur_selector cur = Some (length h2)"
    using br fi by (simp add: Apps_find_def)
  have merged: "deref h' (length h2)
      = us_extend [] [Some (defaulted h sel), Some [(''_id'', JObj [(''$in'', JArr ids)])]]"
    using br fi args by (simp add: deref_append2 res)
  have field: "map_of (deref h' (length h2)) ''_id'' = Some (JObj [(''$in'', JArr ids)])"
    unfolding merged by (simp add: map_of_extend_fresh resolved_def)
  have alone: "sel = None \<longrightarrow> deref h' (length h2) = [(''_id'', JObj [(''$in'', JArr ids)])]"
    unfolding merged by (simp add: defaulted_def extend_fresh_single)
  from cur field alone show ?thesis
    by blast
qed

text \<open>
  Claim C3. Let a user be resolved, let application id \<open>a\<close> be a key of the user's
  \<^verbatim>\<open>installedApps\<close> with installed timestamp \<open>t1\<close>, and let the catalog hold an
  entity for \<open>a\<close> whose latest version has timestamp \<open>t2\<close>. Then \<open>findIn\<close> on
  \<^verbatim>\<open>Updates Available\<close> queries the catalog with a selector whose \<^verbatim>\<open>_id\<close> field is
  the membership filter \<^verbatim>\<open>{$in: ua}\<close>, and on \<^verbatim>\<open>No Updates\<close> with one whose
  \<^verbatim>\<open>_id\<close> field is \<^verbatim>\<open>{$in: nu}\<close>, the lists being those the two selector functions
  compute. \<open>a\<close> is in \<open>ua\<close> exactly when \<open>t1 < t2\<close> and in \<open>nu\<close> exactly when
  \<open>t2 \<le> t1\<close>; with equal timestamps \<open>a\<close> is in \<open>nu\<close> and not in \<open>ua\<close>. The lists
  hold installed ids only: \<open>ua\<close> those whose catalog entity is strictly newer than the
  installed version, \<open>nu\<close> those whose catalog entity is not. With no selector from
  the caller, the entity of \<open>a\<close> is in the result of \<^verbatim>\<open>Updates Available\<close> exactly
  when \<open>t1 < t2\<close>, and in the result of \<^verbatim>\<open>No Updates\<close> exactly when \<open>t2 \<le> t1\<close>.
\<close>

theorem update_classification:
  assumes user: "getUser e (this_of c) None = Some u"
    and dist: "distinct (map fst (installedApps u))"
    and inst: "(a, t1) \<in> set (installedApps u)"
    and ent: "Apps_findOne_id (Apps e) a = Some ent"
    and latest: "latestVersion_dateTime ent = t2"
    and nc_ua: "''Updates Available'' \<notin> cat_name ` set (Categories e)"
    and nc_nu: "''No Updates'' \<notin> cat_name ` set (Categories e)"
    and vs: "valid_arg h sel" and vo: "valid_arg h opts"
    and f_ua: "findIn e ''Updates Available'' sel opts c h = (cur_ua, h_ua)"
    and f_nu: "findIn e ''No Updates'' sel opts c h = (cur_nu, h_nu)"
  shows "\<exists>s_ua s_nu ua nu.
           cur_selector cur_ua = Some s_ua
         \<and> map_of (deref h_ua s_ua) ''_id'' = Some (JObj [(''$in'', JArr (map JStr ua))])
         \<and> cur_selector cur_nu = Some s_nu
         \<and> map_of (deref h_nu s_nu) ''_id'' = Some (JObj [(''$in'', JArr (map JStr nu))])
         \<and> resolve_field e (Computed UpdatesAvailable_selector) c
             = Some [(''_id'', JObj [(''$in'', JArr (map JStr ua))])]
         \<and> resolve_field e (Computed NoUpdates_selector) c
             = Some [(''_id'', JObj [(''$in'', JArr (map JStr nu))])]
         \<and> (a \<in> set ua \<longleftrightarrow> t1 < t2)
         \<and> (a \<in> set nu \<longleftrightarrow> t2 \<le> t1)
         \<and> (t1 = t2 \<longrightarrow> a \<in> set nu \<and> a \<notin> set ua)
         \<and> set ua = {k. \<exists>t cur. (k, t) \<in> set (installedApps u)
                          \<and> Apps_findOne_id (Apps e) k = Some cur
                          \<and> t < latestVersion_dateTime cur}
         \<and> set nu = {k. \<exists>t cur. (k, t) \<in> set (installedApps u)
                          \<and> Apps_findOne_id (Apps e) k = Some cur
                          \<and> latestVersion_dateTime cur \<le> t}
         \<and> (sel = None \<longrightarrow>
              (ent \<in> set (fetch (Apps e) h_ua cur_ua) \<longleftrightarrow> t1 < t2)
            \<and> (ent \<in> set (fetch (Apps e) h_nu cur_nu) \<longleftrightarrow> t2 \<le> t1))"
proof -
  let ?ua = "fold (updatesAvailable_step (Apps e)) (installedApps u) []"
  let ?nu = "fold (noUpdates_step (Apps e)) (installedApps u) []"
  have only: "t = t1" if "(a, t) \<in> set (installedApps u)" for t
    using dist that inst by (rule eq_key_imp_eq_value)
  have set_ua: "set ?ua = {k. \<exists>t cur. (k, t) \<in> set (installedApps u)
                          \<and> Apps_findOne_id (Apps e) k = Some cur
                          \<and> t < latestVersion_dateTime cur}"
    by (simp add: set_fold_updatesAvailable)
  have set_nu: "set ?nu = {k. \<exists>t cur. (k, t) \<in> set (installedApps u)
                          \<and> Apps_findOne_id (Apps e) k = Some cur
                          \<and> latestVersion_dateTime cur \<le> t}"
    by (simp add: set_fold_noUpdates)
  have ua: "a \<in> set ?ua \<longleftrightarrow> t1 < t2"
  proof
    assume "a \<in> set ?ua"
    then obtain t cur where tc: "(a, t) \<in> set (installedApps u)"
        "Apps_findOne_id (Apps e) a = Some cur" "t < latestVersion_dateTime cur"
      unfolding set_fold_updatesAvailable by auto
    from tc(1) have "t = t1"
      by (rule only)
    with tc(2) tc(3) ent latest show "t1 < t2"
      by simp
  next
    assume "t1 < t2"
    with inst ent latest show "a \<in> set ?ua"
      unfolding set_fold_updatesAvailable by blast
  qed
  have nu: "a \<in> set ?nu \<longleftrightarrow> t2 \<le> t1"
  proof
    assume "a \<in> set ?nu"
    then obtain t cur where tc: "(a, t) \<in> set (installedApps u)"
        "Apps_findOne_id (Apps e) a = Some cur" "latestVersion_dateTime cur \<le> t"
      unfolding set_fold_noUpdates by auto
    from tc(1) have "t = t1"
      by (rule only)
    with tc(2) tc(3) ent latest show "t2 \<le> t1"
      by simp
  next
    assume "t2 \<le> t1"
    with inst ent latest show "a \<in> set ?nu"
      unfolding set_fold_noUpdates by blast
  qed
  have eq: "t1 = t2 \<longrightarrow> a \<in> set ?nu \<and> a \<notin> set ?ua"
    using ua nu by simp
  have r_ua: "resolve_field e (Computed UpdatesAvailable_selector) c
      = Some [(''_id'', JObj [(''$in'', JArr (map JStr ?ua))])]"
    and r_nu: "resolve_field e (Computed NoUpdates_selector) c
      = Some [(''_id'', JObj [(''$in'', JArr (map JStr ?nu))])]"
    using user by (simp_all add: resolve_field_def)
  have r_ua': "resolve_field e
      (g_selector \<lparr>g_name = ''Updates Available'', g_selector = Computed UpdatesAvailable_selector,
             g_options = Absent, g_priority = 0, g_showSummary = False\<rparr>) c
      = Some [(''_id'', JObj [(''$in'', JArr (map JStr ?ua))])]"
    using r_ua by simp
  have r_nu': "resolve_field e
      (g_selector \<lparr>g_name = ''No Updates'', g_selector = Computed NoUpdates_selector,
             g_options = Absent, g_priority = 0, g_showSummary = False\<rparr>) c
      = Some [(''_id'', JObj [(''$in'', JArr (map JStr ?nu))])]"
    using r_nu by simp
  obtain s_ua where q_ua: "cur_selector cur_ua = Some s_ua"
      "map_of (deref h_ua s_ua) ''_id'' = Some (JObj [(''$in'', JArr (map JStr ?ua))])"
      "sel = None \<longrightarrow> deref h_ua s_ua = [(''_id'', JObj [(''$in'', JArr (map JStr ?ua))])]"
    using findIn_membership_filter [OF nc_ua findWhere_UpdatesAvailable r_ua' vs vo f_ua]
    by blast
  obtain s_nu where q_nu: "cur_selector cur_nu = Some s_nu"
      "map_of (deref h_nu s_nu) ''_id'' = Some (JObj [(''$in'', JArr (map JStr ?nu))])"
      "sel = None \<longrightarrow> deref h_nu s_nu = [(''_id'', JObj [(''$in'', JArr (map JStr ?nu))])]"
    using findIn_membership_filter [OF nc_nu findWhere_NoUpdates r_nu' vs vo f_nu]
    by blast
  note doc = Apps_findOne_id_Some [OF ent]
  have inj: "JStr a \<in> set (map JStr xs) \<longleftrightarrow> a \<in> set xs" for xs
    by auto
  have results: "sel = None \<longrightarrow>
              (ent \<in> set (fetch (Apps e) h_ua cur_ua) \<longleftrightarrow> t1 < t2)
            \<and> (ent \<in> set (fetch (Apps e) h_nu cur_nu) \<longleftrightarrow> t2 \<le> t1)"
  proof
    assume none: "sel = None"
    have "ent \<in> set (fetch (Apps e) h_ua cur_ua)
        \<longleftrightarrow> ent \<in> set (Apps e) \<and> JStr a \<in> set (map JStr ?ua)"
      using q_ua(1) q_ua(3) [rule_format, OF none] doc [THEN conjunct2] by (rule fetch_id_in)
    then have in_ua: "ent \<in> set (fetch (Apps e) h_ua cur_ua) \<longleftrightarrow> t1 < t2"
      using doc ua by (simp only: inj) simp
    have "ent \<in> set (fetch (Apps e) h_nu cur_nu)
        \<longleftrightarrow> ent \<in> set (Apps e) \<and> JStr a \<in> set (map JStr ?nu)"
      using q_nu(1) q_nu(3) [rule_format, OF none] doc [THEN conjunct2] by (rule fetch_id_in)
    then have in_nu: "ent \<in> set (fetch (Apps e) h_nu cur_nu) \<longleftrightarrow> t2 \<le> t1"
      using doc nu by (simp only: inj) simp
    from in_ua in_nu
    show "(ent \<in> set (fetch (Apps e) h_ua cur_ua) \<longleftrightarrow> t1 < t2)
            \<and> (ent \<in> set (fetch (Apps e) h_nu cur_nu) \<longleftrightarrow> t2 \<le> t1)"
      by (rule conjI)
  qed
  show ?thesis
    apply (rule exI [of _ s_ua])
    apply (rule exI [of _ s_nu])
    apply (rule exI [of _ ?ua])
    apply (rule exI [of _ ?nu])
    apply (intro conjI)
               apply (rule q_ua(1))
              apply (rule q_ua(2))
             apply (rule q_nu(1))
            apply (rule q_nu(2))
           apply (rule r_ua)
          apply (rule r_nu)
         apply (rule ua)
        apply (rule nu)
       apply (rule eq)
      apply (rule set_ua)
     apply (rule set_nu)
    apply (rule results)
    done
qed


theorem update_classification_witness:
  "getUser ex_env (this_of (Some ex_logged_in)) None = Some ex_user
   \<and> distinct (map fst (installedApps ex_user))
   \<and> (''a1'', 3) \<in> set (installedApps ex_user)
   \<and> Apps_findOne_id (Apps ex_env) ''a1'' = Some ex_app1
   \<and> latestVersion_dateTime ex_app1 = 5
   \<and> findIn ex_env ''Updates Available'' None None (Some ex_logged_in) []
       = (\<lparr>cur_selector = Some 2, cur_options = Some 3\<rparr>,
          [[], [], [(''_id'', JObj [(''$in'', JArr [JStr ''a1''])])], []])
   \<and> findIn ex_env ''No Updates'' None None (Some ex_logged_in) []
       = (\<lparr>cur_selector = Some 2, cur_options = Some 3\<rparr>,
          [[], [], [(''_id'', JObj [(''$in'', JArr [JStr ''a2''])])], []])
   \<and> ex_app1 \<in> set (fetch (Apps ex_env)
         [[], [], [(''_id'', JObj [(''$in'', JArr [JStr ''a1''])])], []]
         \<lparr>cur_selector = Some 2, cur_options = Some 3\<rparr>)
   \<and> ex_app1 \<notin> set (fetch (Apps ex_env)
         [[], [], [(''_id'', JObj [(''$in'', JArr [JStr ''a2''])])], []]
         \<lparr>cur_selector = Some 2, cur_options = Some 3\<rparr>)
   \<and> fetch (Apps ex_env) [[], [], [(''_id'', JObj [(''$in'', JArr [JStr ''a1''])])], []]
         \<lparr>cur_selector = Some 2, cur_options = Some 3\<rparr> = [ex_app1]
   \<and> fetch (Apps ex_env) [[], [], [(''_id'', JObj [(''$in'', JArr [JStr ''a2''])])], []]
         \<lparr>cur_selector = Some 2, cur_options = Some 3\<rparr> = [ex_app2]"
proof -
  let ?cur = "\<lparr>cur_selector = Some 2, cur_options = Some 3\<rparr>"
  let ?hua = "[[], [], [(''_id'', JObj [(''$in'', JArr [JStr ''a1''])])], []]"
  let ?hnu = "[[], [], [(''_id'', JObj [(''$in'', JArr [JStr ''a2''])])], []]"
  have u: "getUser ex_env (this_of (Some ex_logged_in)) None = Some ex_user"
    by (simp add: ex_env_def ex_logged_in_def ex_user_def this_of_def getUser_def js_or_def
        Meteor_users_findOne_def)
  have d: "distinct (map fst (installedApps ex_user))"
    by (simp add: ex_user_def)
  have m: "(''a1'', 3) \<in> set (installedApps ex_user)"
    by (simp add: ex_user_def)
  have f: "Apps_findOne_id (Apps ex_env) ''a1'' = Some ex_app1"
    by (simp add: Apps_findOne_id_def ex_env_def ex_app1_def)
  have l: "latestVersion_dateTime ex_app1 = 5"
    by (simp add: ex_app1_def)
  have n1: "''Updates Available'' \<notin> cat_name ` set (Categories ex_env)"
    and n2: "''No Updates'' \<notin> cat_name ` set (Categories ex_env)"
    by (simp_all add: ex_env_def)
  have v: "valid_arg [] None"
    by (simp add: valid_arg_def)
  have f_ua: "findIn ex_env ''Updates Available'' None None (Some ex_logged_in) [] = (?cur, ?hua)"
    by (simp add: findIn_def or_empty_def new_object_def Categories_findOne_def ex_env_def
        ex_logged_in_def ex_user_def ex_app1_def ex_app2_def
        findWhere_name_def extraGenres_def invokeGenreFunctions_def resolve_field_def
        extend_at_def us_extend_def assign_all_def obj_keys_def deref_def Apps_find_def
        this_of_def getUser_def js_or_def Meteor_users_findOne_def
        updatesAvailable_step_def Apps_findOne_id_def)
  have f_nu: "findIn ex_env ''No Updates'' None None (Some ex_logged_in) [] = (?cur, ?hnu)"
    by (simp add: findIn_def or_empty_def new_object_def Categories_findOne_def ex_env_def
        ex_logged_in_def ex_user_def ex_app1_def ex_app2_def
        findWhere_name_def extraGenres_def invokeGenreFunctions_def resolve_field_def
        extend_at_def us_extend_def assign_all_def obj_keys_def deref_def Apps_find_def
        this_of_def getUser_def js_or_def Meteor_users_findOne_def
        noUpdates_step_def Apps_findOne_id_def)
  from update_classification [OF u d m f l n1 n2 v v f_ua f_nu]
  obtain s_ua s_nu ua nu where
    r: "None = (None :: ref option) \<longrightarrow>
          (ex_app1 \<in> set (fetch (Apps ex_env) ?hua ?cur) \<longleftrightarrow> (3::int) < 5)
        \<and> (ex_app1 \<in> set (fetch (Apps ex_env) ?hnu ?cur) \<longleftrightarrow> (5::int) \<le> 3)"
    by (elim exE conjE) (rule that)
  from r have r1: "ex_app1 \<in> set (fetch (Apps ex_env) ?hua ?cur)"
    and r2: "ex_app1 \<notin> set (fetch (Apps ex_env) ?hnu ?cur)"
    by simp_all
  have ev: "fetch (Apps ex_env) ?hua ?cur = [ex_app1]" "fetch (Apps ex_env) ?hnu ?cur = [ex_app2]"
    by (simp_all add: fetch_def matches_def obj_keys_def doc_field_def field_holds_def deref_def
        ex_env_def ex_app1_def ex_app2_def)
  from u d m f l f_ua f_nu r1 r2 ev show ?thesis
    by (intro conjI)
qed

section \<open>The order of getAll\<close>

lemma crit_after_asym: "crit_after a b \<Longrightarrow> \<not> crit_after b a"
  by (auto simp: crit_after_def split: option.splits)

lemma crit_not_after_trans:
  "\<not> crit_after a b \<Longrightarrow> \<not> crit_after b c \<Longrightarrow> \<not> crit_after a c"
  by (auto simp: crit_after_def split: option.splits)

lemma mset_insert_by: "mset (insert_by f x xs) = add_mset x (mset xs)"
  by (induction xs) auto

lemma set_insert_by: "set (insert_by f x xs) = insert x (set xs)"
  by (induction xs) auto

lemma sorted_insert_by:
  "sorted_wrt (\<lambda>x y. \<not> crit_after (f x) (f y)) xs \<Longrightarrow>
   sorted_wrt (\<lambda>x y. \<not> crit_after (f x) (f y)) (insert_by f x xs)"
proof (induction xs)
  case Nil
  then show ?case by simp
next
  case (Cons y ys)
  show ?case
  proof (cases "crit_after (f x) (f y)")
    case True
    then have "\<not> crit_after (f y) (f x)"
      by (rule crit_after_asym)
    with True Cons show ?thesis
      by (auto simp: set_insert_by)
  next
    case False
    have "\<not> crit_after (f x) (f z)" if "z \<in> set ys" for z
    proof -
      from Cons.prems that have "\<not> crit_after (f y) (f z)"
        by simp
      with False show ?thesis
        by (rule crit_not_after_trans)
    qed
    with False Cons.prems show ?thesis
      by simp
  qed
qed

lemma filter_insert_by:
  "filter (\<lambda>z. f z = k) (insert_by f x xs) =
     (if f x = k then x # filter (\<lambda>z. f z = k) xs else filter (\<lambda>z. f z = k) xs)"
  by (induction xs) (auto simp: crit_after_def)

lemma sortBy_Nil: "sortBy f [] = []"
  by (simp add: sortBy_def)

lemma sortBy_Cons: "sortBy f (x # xs) = insert_by f x (sortBy f xs)"
  by (simp add: sortBy_def)

lemma mset_sortBy: "mset (sortBy f xs) = mset xs"
  by (induction xs) (simp_all add: sortBy_Nil sortBy_Cons mset_insert_by)

lemma sorted_sortBy: "sorted_wrt (\<lambda>x y. \<not> crit_after (f x) (f y)) (sortBy f xs)"
  by (induction xs) (simp_all add: sortBy_Nil sortBy_Cons sorted_insert_by)

lemma stable_sortBy: "filter (\<lambda>z. f z = k) (sortBy f xs) = filter (\<lambda>z. f z = k) xs"
  by (induction xs) (simp_all add: sortBy_Nil sortBy_Cons filter_insert_by)

lemma getAll_unsorted:
  "getAll w e (Some \<lparr>opt_where = a, opt_filter = p, opt_iteratee = None\<rparr>) =
     (let genres0 = map ExtraGenre extraGenres @ map Category (Categories e);
          genres1 = (case a of Some attrs \<Rightarrow> w genres0 attrs | None \<Rightarrow> genres0)
      in case p of Some q \<Rightarrow> filter q genres1 | None \<Rightarrow> genres1)"
  by (simp add: getAll_def Let_def split: option.splits)

lemma getAll_sorted:
  fixes f :: "genre \<Rightarrow> ('k::linorder) option"
  shows "getAll w e (Some \<lparr>opt_where = a, opt_filter = p, opt_iteratee = Some f\<rparr>) =
     sortBy f (getAll w e (Some \<lparr>opt_where = a, opt_filter = p,
                                 opt_iteratee = (None :: (genre \<Rightarrow> 'k option) option)\<rparr>))"
  by (simp add: getAll_def Let_def split: option.splits)

text \<open>
  Claim C7. With no options \<open>getAll\<close> returns the extra genres in the order of the
  table, then the categories in the order the registry returns them, and sorts nothing;
  the names of the extra genres are, in that order, All, Popular, New, New & Updated,
  This Week, Installed, Updates Available, No Updates, Apps By Me, Apps By Author. With
  an \<^verbatim>\<open>iteratee\<close> \<open>f\<close> the result has exactly the entries that the same call without
  \<^verbatim>\<open>iteratee\<close> returns (the list narrowed by \<^verbatim>\<open>where\<close> and \<^verbatim>\<open>filter\<close>), each as
  often; it is in ascending order of \<open>f\<close>, \<^verbatim>\<open>undefined\<close> last; and entries of equal
  criterion keep their order.
\<close>

theorem getAll_order:
  fixes f :: "genre \<Rightarrow> ('k::linorder) option"
  shows "getAll w e (None :: 'k getAll_options option)
       = map ExtraGenre extraGenres @ map Category (Categories e)
   \<and> map genre_name (map ExtraGenre extraGenres)
       = [''All'', ''Popular'', ''New'', ''New & Updated'', ''This Week'', ''Installed'',
          ''Updates Available'', ''No Updates'', ''Apps By Me'', ''Apps By Author'']
   \<and> getAll w e (Some \<lparr>opt_where = a, opt_filter = p,
                          opt_iteratee = (None :: (genre \<Rightarrow> 'k option) option)\<rparr>)
       = (let genres0 = map ExtraGenre extraGenres @ map Category (Categories e);
              genres1 = (case a of Some attrs \<Rightarrow> w genres0 attrs | None \<Rightarrow> genres0)
          in case p of Some q \<Rightarrow> filter q genres1 | None \<Rightarrow> genres1)
   \<and> mset (getAll w e (Some \<lparr>opt_where = a, opt_filter = p, opt_iteratee = Some f\<rparr>))
       = mset (getAll w e (Some \<lparr>opt_where = a, opt_filter = p,
                                 opt_iteratee = (None :: (genre \<Rightarrow> 'k option) option)\<rparr>))
   \<and> sorted_wrt (\<lambda>x y. \<not> crit_after (f x) (f y))
        (getAll w e (Some \<lparr>opt_where = a, opt_filter = p, opt_iteratee = Some f\<rparr>))
   \<and> filter (\<lambda>x. f x = k)
        (getAll w e (Some \<lparr>opt_where = a, opt_filter = p, opt_iteratee = Some f\<rparr>))
       = filter (\<lambda>x. f x = k)
           (getAll w e (Some \<lparr>opt_where = a, opt_filter = p,
                               opt_iteratee = (None :: (genre \<Rightarrow> 'k option) option)\<rparr>))"
proof -
  let ?narrowed = "getAll w e (Some \<lparr>opt_where = a, opt_filter = p,
                                     opt_iteratee = (None :: (genre \<Rightarrow> 'k option) option)\<rparr>)"
  have none: "getAll w e (None :: 'k getAll_options option)
      = map ExtraGenre extraGenres @ map Category (Categories e)"
    by (simp add: getAll_def no_options_def)
  have names: "map genre_name (map ExtraGenre extraGenres)
       = [''All'', ''Popular'', ''New'', ''New & Updated'', ''This Week'', ''Installed'',
          ''Updates Available'', ''No Updates'', ''Apps By Me'', ''Apps By Author'']"
    by (simp add: extraGenres_def)
  have narrowed: "?narrowed
       = (let genres0 = map ExtraGenre extraGenres @ map Category (Categories e);
              genres1 = (case a of Some attrs \<Rightarrow> w genres0 attrs | None \<Rightarrow> genres0)
          in case p of Some q \<Rightarrow> filter q genres1 | None \<Rightarrow> genres1)"
    by (rule getAll_unsorted)
  have perm: "mset (getAll w e (Some \<lparr>opt_where = a, opt_filter = p, opt_iteratee = Some f\<rparr>))
       = mset ?narrowed"
    unfolding getAll_sorted by (rule mset_sortBy)
  have ordered: "sorted_wrt (\<lambda>x y. \<not> crit_after (f x) (f y))
        (getAll w e (Some \<lparr>opt_where = a, opt_filter = p, opt_iteratee = Some f\<rparr>))"
    unfolding getAll_sorted by (rule sorted_sortBy)
  have stable: "filter (\<lambda>x. f x = k)
        (getAll w e (Some \<lparr>opt_where = a, opt_filter = p, opt_iteratee = Some f\<rparr>))
       = filter (\<lambda>x. f x = k) ?narrowed"
    unfolding getAll_sorted by (rule stable_sortBy)
  from none names narrowed perm ordered stable show ?thesis
    by blast
qed

theorem getAll_order_witness:
  "map genre_name (getAll (\<lambda>gs attrs. gs) ex_env (None :: int getAll_options option))
     = [''All'', ''Popular'', ''New'', ''New & Updated'', ''This Week'', ''Installed'',
        ''Updates Available'', ''No Updates'', ''Apps By Me'', ''Apps By Author'', ''Games'']
   \<and> map genre_name (getAll (\<lambda>gs attrs. gs) ex_env
         (Some \<lparr>opt_where = None, opt_filter = None, opt_iteratee = Some ex_priority\<rparr>))
     = [''Popular'', ''New & Updated'', ''This Week'', ''Updates Available'', ''No Updates'',
        ''Apps By Me'', ''Apps By Author'', ''All'', ''New'', ''Installed'', ''Games'']
   \<and> sorted_wrt (\<lambda>x y. \<not> crit_after (ex_priority x) (ex_priority y))
        (getAll (\<lambda>gs attrs. gs) ex_env
           (Some \<lparr>opt_where = None, opt_filter = None, opt_iteratee = Some ex_priority\<rparr>))"
proof -
  have ev: "map genre_name (getAll (\<lambda>gs attrs. gs) ex_env
         (Some \<lparr>opt_where = None, opt_filter = None, opt_iteratee = Some ex_priority\<rparr>))
     = [''Popular'', ''New & Updated'', ''This Week'', ''Updates Available'', ''No Updates'',
        ''Apps By Me'', ''Apps By Author'', ''All'', ''New'', ''Installed'', ''Games'']"
    by (simp add: getAll_def sortBy_def extraGenres_def ex_env_def ex_priority_def
        crit_after_def)
  from getAll_order [of "\<lambda>gs attrs. gs" ex_env None None ex_priority] ev show ?thesis
    by (simp add: ex_env_def extraGenres_def)
qed

section \<open>Looking one genre up\<close>

lemma findWhere_name_Some:
  "findWhere_name gs nm = Some g \<Longrightarrow> g \<in> set gs \<and> g_name g = nm"
  by (auto simp: findWhere_name_def find_Some_iff)

text \<open>
  Claim C8. \<open>getOne\<close> returns a category of the given name when the registry has one
  (the category itself when category names are distinct); it returns the extra genre of
  that name when the table has one and no category bears the name; it returns nothing
  when neither has the name. An extra genre is returned only when no category has its
  name: where a category and an extra genre share a name, the category is the result.
\<close>

theorem getOne_precedence:
  "(cat \<in> set (Categories e) \<longrightarrow>
      (\<exists>c'. c' \<in> set (Categories e) \<and> cat_name c' = cat_name cat
            \<and> getOne e (cat_name cat) = Some (Category c')))
   \<and> (cat \<in> set (Categories e) \<and> distinct (map cat_name (Categories e)) \<longrightarrow>
      getOne e (cat_name cat) = Some (Category cat))
   \<and> (g \<in> set extraGenres \<and> g_name g \<notin> cat_name ` set (Categories e) \<longrightarrow>
      getOne e (g_name g) = Some (ExtraGenre g))
   \<and> (nm \<notin> cat_name ` set (Categories e) \<and> nm \<notin> g_name ` set extraGenres \<longrightarrow>
      getOne e nm = None)
   \<and> (getOne e nm = Some (ExtraGenre g) \<longrightarrow>
      nm \<notin> cat_name ` set (Categories e) \<and> g \<in> set extraGenres \<and> g_name g = nm)"
proof -
  have first: "\<exists>c'. c' \<in> set (Categories e) \<and> cat_name c' = cat_name cat
            \<and> getOne e (cat_name cat) = Some (Category c')"
    if mem: "cat \<in> set (Categories e)"
  proof -
    obtain c' where c': "Categories_findOne (Categories e) (cat_name cat) = Some c'"
      using Categories_findOne_member [OF mem] by blast
    then have "c' \<in> set (Categories e) \<and> cat_name c' = cat_name cat"
      by (rule Categories_findOne_Some)
    with c' show ?thesis
      by (auto simp: getOne_def)
  qed
  have unique: "getOne e (cat_name cat) = Some (Category cat)"
    if mem: "cat \<in> set (Categories e)" and dist: "distinct (map cat_name (Categories e))"
  proof -
    have "Categories_findOne (Categories e) (cat_name cat) = Some cat"
      unfolding Categories_findOne_def using dist mem by (rule find_distinct_key)
    then show ?thesis
      by (simp add: getOne_def)
  qed
  have extra: "getOne e (g_name g) = Some (ExtraGenre g)"
    if gmem: "g \<in> set extraGenres" and fresh: "g_name g \<notin> cat_name ` set (Categories e)"
    using fresh findWhere_name_member [OF gmem]
    by (simp add: getOne_def Categories_findOne_None [symmetric])
  have neither: "getOne e nm = None"
    if "nm \<notin> cat_name ` set (Categories e)" and "nm \<notin> g_name ` set extraGenres"
    using that
    by (simp add: getOne_def Categories_findOne_None [symmetric] findWhere_name_None [symmetric])
  have only: "nm \<notin> cat_name ` set (Categories e) \<and> g \<in> set extraGenres \<and> g_name g = nm"
    if res: "getOne e nm = Some (ExtraGenre g)"
  proof (cases "Categories_findOne (Categories e) nm")
    case None
    with res have "findWhere_name extraGenres nm = Some g"
      by (auto simp: getOne_def)
    then have "g \<in> set extraGenres \<and> g_name g = nm"
      by (rule findWhere_name_Some)
    with None show ?thesis
      by (simp add: Categories_findOne_None)
  next
    case (Some c')
    with res show ?thesis
      by (simp add: getOne_def)
  qed
  from first unique extra neither only show ?thesis
    by blast
qed

theorem getOne_precedence_witness:
  "\<lparr>cat_name = ''Popular'', cat_doc = []\<rparr>
      \<in> set (Categories (ex_env\<lparr>Categories := [\<lparr>cat_name = ''Popular'', cat_doc = []\<rparr>]\<rparr>))
   \<and> distinct (map cat_name (Categories (ex_env\<lparr>Categories := [\<lparr>cat_name = ''Popular'', cat_doc = []\<rparr>]\<rparr>)))
   \<and> getOne (ex_env\<lparr>Categories := [\<lparr>cat_name = ''Popular'', cat_doc = []\<rparr>]\<rparr>) ''Popular''
       = Some (Category \<lparr>cat_name = ''Popular'', cat_doc = []\<rparr>)
   \<and> getOne ex_env ''Popular''
       = Some (ExtraGenre \<lparr>g_name = ''Popular'', g_selector = Static [],
                 g_options = Static [(''sort'', JObj [(''installCount'', JNum (- 1))])],
                 g_priority = 0, g_showSummary = True\<rparr>)
   \<and> getOne ex_env ''Games'' = Some (Category \<lparr>cat_name = ''Games'', cat_doc = []\<rparr>)
   \<and> getOne ex_env ''Board Games'' = None"
proof -
  let ?pop = "\<lparr>cat_name = ''Popular'', cat_doc = []\<rparr>"
  let ?e = "ex_env\<lparr>Categories := [?pop]\<rparr>"
  let ?g = "\<lparr>g_name = ''Popular'', g_selector = Static [],
             g_options = Static [(''sort'', JObj [(''installCount'', JNum (- 1))])],
             g_priority = 0, g_showSummary = True\<rparr>"
  let ?games = "\<lparr>cat_name = ''Games'', cat_doc = []\<rparr>"
  have a: "?pop \<in> set (Categories ?e) \<and> distinct (map cat_name (Categories ?e))"
    by simp
  have b: "?g \<in> set extraGenres \<and> g_name ?g \<notin> cat_name ` set (Categories ex_env)"
    by (simp add: extraGenres_def ex_env_def)
  have c: "?games \<in> set (Categories ex_env) \<and> distinct (map cat_name (Categories ex_env))"
    by (simp add: ex_env_def)
  have d: "''Board Games'' \<notin> cat_name ` set (Categories ex_env)
      \<and> ''Board Games'' \<notin> g_name ` set extraGenres"
    by (simp add: extraGenres_def ex_env_def)
  have r1: "getOne ?e (cat_name ?pop) = Some (Category ?pop)"
    using getOne_precedence [of ?pop ?e ?g "''Board Games''"] a by blast
  note t = getOne_precedence [of ?games ex_env ?g "''Board Games''"]
  have r2: "getOne ex_env (g_name ?g) = Some (ExtraGenre ?g)"
    using t b by blast
  have r3: "getOne ex_env (cat_name ?games) = Some (Category ?games)"
    using t c by blast
  have r4: "getOne ex_env ''Board Games'' = None"
    using t d by blast
  from a r1 r2 r3 r4 show ?thesis
    by simp
qed

section \<open>Uploading an image\<close>

lemma digit_value_nth: "d < 10 \<Longrightarrow> digit_value (''0123456789'' ! d) = d"
proof -
  assume "d < 10"
  then consider "d = 0" | "d = 1" | "d = 2" | "d = 3" | "d = 4" | "d = 5" | "d = 6" | "d = 7"
    | "d = 8" | "d = 9"
    by (fastforce simp: less_Suc_eq numeral_eq_Suc)
  then show ?thesis
    by cases (simp_all add: digit_value_def)
qed

lemma decimal_value_snoc: "decimal_value (s @ [ch]) = 10 * decimal_value s + digit_value ch"
  by (simp add: decimal_value_def)

lemma decimal_value_digits: "decimal_value (digits n) = n"
proof (induction n rule: digits.induct)
  case (1 n)
  show ?case
  proof (cases "n < 10")
    case True
    then show ?thesis
      by (subst digits.simps) (simp add: decimal_value_def digit_value_nth)
  next
    case False
    with 1 have "decimal_value (digits (n div 10)) = n div 10"
      by simp
    with False show ?thesis
      by (subst digits.simps) (simp add: decimal_value_snoc digit_value_nth)
  qed
qed

text \<open>
  Claim C9. For an identity authenticated as (non-empty) user id \<open>u\<close>, authorization
  succeeds and the key of a file named \<open>n\<close> uploaded at millisecond \<open>t\<close> is
  \<^verbatim>\<open>images/\<close>, \<open>u\<close>, an underscore, \<open>t\<close> in decimal, an underscore and \<open>n\<close>; for
  user \<^verbatim>\<open>u1\<close>, time 1000 and file \<^verbatim>\<open>photo.png\<close> it is
  \<^verbatim>\<open>images/u1_1000_photo.png\<close>; the digits written for a time \<open>n\<close> read back as
  \<open>n\<close>. For an identity with no user id, authorization raises
  the error named \<^verbatim>\<open>Login Required\<close> with its message, and the upload request ends in
  that error with no key.
\<close>

theorem upload_directive:
  "(userId this = Some u \<and> u \<noteq> [] \<longrightarrow>
      authorize this = Inr True
    \<and> key this t file = ''images/'' @ u @ ''_'' @ number_to_string t @ ''_'' @ file_name file
    \<and> request_upload this t file = Inr (key this t file))
   \<and> key \<lparr>userId = Some ''u1'', authorId = a\<rparr> 1000 \<lparr>file_name = ''photo.png''\<rparr>
       = ''images/u1_1000_photo.png''
   \<and> decimal_value (number_to_string (int n)) = n
   \<and> (userId this = None \<or> userId this = Some [] \<longrightarrow>
      authorize this = Inl (Meteor_Error ''Login Required'' ''Please login before posting files'')
    \<and> request_upload this t file
        = Inl (Meteor_Error ''Login Required'' ''Please login before posting files''))"
proof -
  have ok: "authorize this = Inr True
    \<and> key this t file = ''images/'' @ u @ ''_'' @ number_to_string t @ ''_'' @ file_name file
    \<and> request_upload this t file = Inr (key this t file)"
    if "userId this = Some u" and "u \<noteq> []"
    using that by (simp add: authorize_def js_or_def key_def id_to_string_def request_upload_def)
  have ex: "key \<lparr>userId = Some ''u1'', authorId = a\<rparr> 1000 \<lparr>file_name = ''photo.png''\<rparr>
       = ''images/u1_1000_photo.png''"
    by (simp add: key_def id_to_string_def number_to_string_def digits.simps)
  have no: "authorize this = Inl (Meteor_Error ''Login Required'' ''Please login before posting files'')
    \<and> request_upload this t file
        = Inl (Meteor_Error ''Login Required'' ''Please login before posting files'')"
    if "userId this = None \<or> userId this = Some []"
    using that by (auto simp: authorize_def js_or_def request_upload_def)
  have dec: "decimal_value (number_to_string (int n)) = n"
    by (simp add: number_to_string_def decimal_value_digits)
  from ok ex dec no show ?thesis
    by blast
qed

theorem upload_directive_witness:
  "userId ex_logged_in = Some ''u1''
   \<and> authorize ex_logged_in = Inr True
   \<and> request_upload ex_logged_in 1000 \<lparr>file_name = ''photo.png''\<rparr>
       = Inr ''images/u1_1000_photo.png''
   \<and> userId \<lparr>userId = None, authorId = None\<rparr> = None
   \<and> request_upload \<lparr>userId = None, authorId = None\<rparr> 1000 \<lparr>file_name = ''photo.png''\<rparr>
       = Inl (Meteor_Error ''Login Required'' ''Please login before posting files'')"
proof -
  have a: "userId ex_logged_in = Some ''u1'' \<and> ''u1'' \<noteq> []"
    by (simp add: ex_logged_in_def)
  have k: "key ex_logged_in 1000 \<lparr>file_name = ''photo.png''\<rparr> = ''images/u1_1000_photo.png''"
    by (simp add: key_def id_to_string_def number_to_string_def digits.simps ex_logged_in_def)
  have r1: "authorize ex_logged_in = Inr True
      \<and> request_upload ex_logged_in 1000 \<lparr>file_name = ''photo.png''\<rparr>
          = Inr (key ex_logged_in 1000 \<lparr>file_name = ''photo.png''\<rparr>)"
    using upload_directive [of ex_logged_in "''u1''" 1000 "\<lparr>file_name = ''photo.png''\<rparr>" None] a
    by blast
  have b: "userId \<lparr>userId = None, authorId = None\<rparr> = None"
    by simp
  have r2: "request_upload \<lparr>userId = None, authorId = None\<rparr> 1000 \<lparr>file_name = ''photo.png''\<rparr>
       = Inl (Meteor_Error ''Login Required'' ''Please login before posting files'')"
    using upload_directive [of "\<lparr>userId = None, authorId = None\<rparr>" "''u1''" 1000
        "\<lparr>file_name = ''photo.png''\<rparr>" None] b
    by blast
  from a r1 k b r2 show ?thesis
    by simp
qed

end
